theory Spec2Isabelle
  imports Complex_Main
begin

section \<open>The quiet-time gate (src/quietTime.ts)\<close>

text \<open>
  The two localStorage entries the module owns. \<open>psim_actionMinutes\<close> holds the parsed
  JSON array of minute stamps; \<open>None\<close> stands for a missing, empty or unparsable entry,
  which \<open>loadMinutes\<close> turns into the empty array. \<open>psim_quietUntil\<close> holds the number
  that \<open>setQuietUntil\<close> wrote with \<open>String(ts)\<close> and \<open>getQuietUntil\<close> reads back with
  \<open>parseInt\<close>; \<open>None\<close> is the removed key. Time stamps are the integers \<open>Date.now()\<close>
  returns (milliseconds since the epoch); each call of an exported function is taken at one
  clock reading \<open>now\<close>.
\<close>

record storage =
  psim_actionMinutes :: "int list option"
  psim_quietUntil :: "int option"

definition HOUR_MINUTES :: int where
  "HOUR_MINUTES = 60"

definition QUIET_MIN_PER_HOUR :: int where
  "QUIET_MIN_PER_HOUR = 20"

definition ACTIVE_PLAY_LIMIT :: int where
  "ACTIVE_PLAY_LIMIT = HOUR_MINUTES - QUIET_MIN_PER_HOUR"

definition QUIET_BLOCK_MIN :: int where
  "QUIET_BLOCK_MIN = 20"

definition nowMinute :: "int \<Rightarrow> int" where
  "nowMinute now = now div 60000"

definition loadMinutes :: "storage \<Rightarrow> int list" where
  "loadMinutes st = (case psim_actionMinutes st of None \<Rightarrow> [] | Some mins \<Rightarrow> mins)"

definition saveMinutes :: "storage \<Rightarrow> int list \<Rightarrow> storage" where
  "saveMinutes st mins = st\<lparr>psim_actionMinutes := Some mins\<rparr>"

definition getQuietUntil :: "storage \<Rightarrow> int option" where
  "getQuietUntil st = psim_quietUntil st"

definition setQuietUntil :: "storage \<Rightarrow> int option \<Rightarrow> storage" where
  "setQuietUntil st ts = st\<lparr>psim_quietUntil := ts\<rparr>"

definition purgeOld :: "int list \<Rightarrow> int \<Rightarrow> int list" where
  "purgeOld mins ref = (let cutoff = ref - (HOUR_MINUTES - 1) in filter (\<lambda>m. cutoff \<le> m) mins)"

text \<open>
  The result object of \<open>registerAction\<close>.
\<close>

record register_result =
  quietUntil :: "int option"
  activeInWindow :: int

text \<open>
  \<open>registerAction\<close>, statement by statement. JavaScript's \<open>!quietUntil\<close> holds for
  \<open>null\<close> and for the number \<open>0\<close>, and \<open>quietUntil && ...\<close> fails for both; the two
  \<open>case\<close> expressions spell that out.
\<close>

definition registerAction :: "storage \<Rightarrow> int \<Rightarrow> storage \<times> register_result" where
  "registerAction st now =
    (let m = nowMinute now;
         purged = purgeOld (loadMinutes st) m;
         minutes = (if m \<in> set purged then purged else purged @ [m]);
         st1 = saveMinutes st minutes;
         active = int (length minutes);
         q0 = getQuietUntil st1;
         start = (ACTIVE_PLAY_LIMIT \<le> active \<and>
                  (case q0 of None \<Rightarrow> True | Some d \<Rightarrow> d = 0 \<or> d \<le> now));
         q1 = (if start then Some (now + QUIET_BLOCK_MIN * 60 * 1000) else q0);
         st2 = (if start then setQuietUntil st1 q1 else st1);
         lapsed = (case q1 of None \<Rightarrow> False | Some d \<Rightarrow> d \<noteq> 0 \<and> d \<le> now);
         q2 = (if lapsed then None else q1);
         st3 = (if lapsed then setQuietUntil st2 None else st2)
     in (st3, \<lparr>quietUntil = q2, activeInWindow = active\<rparr>))"

text \<open>
  The result object of \<open>isQuietActive\<close>.
\<close>

record quiet_status =
  active :: bool
  until :: "int option"

definition isQuietActive :: "storage \<Rightarrow> int \<Rightarrow> storage \<times> quiet_status" where
  "isQuietActive st now =
    (case getQuietUntil st of
       None \<Rightarrow> (st, \<lparr>active = False, until = None\<rparr>)
     | Some u \<Rightarrow>
         if u = 0 then (st, \<lparr>active = False, until = None\<rparr>)
         else if u \<le> now then (setQuietUntil st None, \<lparr>active = False, until = None\<rparr>)
         else (st, \<lparr>active = True, until = Some u\<rparr>))"

section \<open>The pet (src/App.tsx)\<close>

datatype PetState = AWAKE | DROWSY | SLEEPING

datatype NeedKey = Hunger | Cleanliness | Playfulness | Affection

datatype ActionKind = FEED | GROOM | PLAY | CUDDLE

record Needs =
  hunger :: int
  cleanliness :: int
  playfulness :: int
  affection :: int

definition IDLE_TO_DROWSY_MS :: int where
  "IDLE_TO_DROWSY_MS = 8 * 60 * 1000"

definition DROWSY_TO_SLEEP_MS :: int where
  "DROWSY_TO_SLEEP_MS = 2 * 60 * 1000"

definition AUTO_WAKE_MIN_MS :: int where
  "AUTO_WAKE_MIN_MS = 5 * 60 * 1000"

definition AUTO_WAKE_MAX_MS :: int where
  "AUTO_WAKE_MAX_MS = 12 * 60 * 1000"

definition clamp :: "int \<Rightarrow> int \<Rightarrow> int \<Rightarrow> int" where
  "clamp n lo hi = max lo (min hi n)"

text \<open>
  The component's state: the \<open>useState\<close> cells \<open>petState\<close>, \<open>needs\<close>, \<open>quietUntil\<close>
  (here \<open>quietUntil_state\<close>, the name \<open>quietUntil\<close> being taken by the result of
  \<open>registerAction\<close>), \<open>now\<close> and \<open>sleepUntil\<close>, the two refs, and the localStorage the
  gate reads and writes. The pet type, the sound switch and the action animation of the
  later version of the component take no part in what follows and are left out.
\<close>

record app =
  petState :: PetState
  needs :: Needs
  quietUntil_state :: "int option"
  now :: int
  sleepUntil :: "int option"
  lastInputRef :: int
  autoSleepStartedRef :: bool
  localStorage :: storage

text \<open>
  Mounting the component at clock reading \<open>t0\<close>: the initial values of the cells and refs.
  The initial value of \<open>quietUntil\<close> is \<open>isQuietActive().until\<close>, so the first render
  leaves in the store what \<open>isQuietActive\<close> leaves there.
\<close>

definition initApp :: "storage \<Rightarrow> int \<Rightarrow> app" where
  "initApp st t0 =
    (let qa = isQuietActive st t0
     in \<lparr>petState = AWAKE,
         needs = \<lparr>hunger = 70, cleanliness = 70, playfulness = 70, affection = 70\<rparr>,
         quietUntil_state = until (snd qa),
         now = t0,
         sleepUntil = None,
         lastInputRef = t0,
         autoSleepStartedRef = False,
         localStorage = fst qa\<rparr>)"

text \<open>
  Every later render evaluates \<open>useState(isQuietActive().until)\<close> again and drops the
  value; what stays is the store effect of the call at the render's clock reading \<open>t\<close>,
  the removal of a lapsed deadline.
\<close>

definition render :: "app \<Rightarrow> int \<Rightarrow> app" where
  "render s t = s\<lparr>localStorage := fst (isQuietActive (localStorage s) t)\<rparr>"

text \<open>
  A value of \<open>Math.random()\<close>: a double that is at least 0 and less than 1. \<open>Draw m e\<close>
  stands for the double \<open>m / 2^e\<close>; the doubles from 0 up to but not including 1 are
  exactly those with \<open>m < 2^53\<close> and \<open>e\<close> from 53 to 1074 (several pairs can stand for the
  same double).
\<close>

datatype draw = Draw (mant: nat) (expo: nat)

definition unit_double :: "draw \<Rightarrow> bool" where
  "unit_double d = (mant d < 2 ^ 53 \<and> 53 \<le> expo d \<and> expo d \<le> 1074)"

text \<open>
  The number of binary digits of a natural number.
\<close>

fun bits :: "nat \<Rightarrow> nat" where
  "bits n = (if n = 0 then 0 else Suc (bits (n div 2)))"

declare bits.simps [simp del]

text \<open>
  Rounding a natural number to 53 significant binary digits, to nearest, ties to even: what
  IEEE 754 multiplication does to the significand of an exact product.
\<close>

definition round53 :: "nat \<Rightarrow> nat" where
  "round53 M =
    (if M < 2 ^ 53 then M
     else
       (let s = bits M - 53;
            q = M div 2 ^ s;
            rest = M mod 2 ^ s;
            half = 2 ^ (s - 1);
            q' = (if half < rest \<or> (rest = half \<and> odd q) then q + 1 else q)
        in q' * 2 ^ s))"

text \<open>
  \<open>Math.floor(r * c)\<close> for a draw \<open>r\<close> and a whole number \<open>c\<close> below \<open>2^53\<close>: the exact
  product is \<open>mant r * c / 2^expo r\<close>, the double product is that with the numerator
  rounded (the exponent stays in range: the product is below \<open>2^53\<close> and a multiple of
  \<open>2^-1074\<close>, and it is exact whenever it is subnormal), and the floor of a double is exact.
\<close>

definition timesFloor :: "draw \<Rightarrow> nat \<Rightarrow> nat" where
  "timesFloor r c = round53 (mant r * c) div 2 ^ expo r"

text \<open>
  The auto-wake span (\<open>span\<close> in the source, a name HOL uses for linear hulls):
  \<open>AUTO_WAKE_MIN_MS + Math.floor(Math.random() * (AUTO_WAKE_MAX_MS - AUTO_WAKE_MIN_MS))\<close>,
  \<open>r\<close> being the value of \<open>Math.random()\<close>. The difference and the sum are whole numbers
  far below \<open>2^53\<close> and so exact.
\<close>

definition wakeSpan :: "draw \<Rightarrow> int" where
  "wakeSpan r = AUTO_WAKE_MIN_MS + int (timesFloor r (nat (AUTO_WAKE_MAX_MS - AUTO_WAKE_MIN_MS)))"

text \<open>
  The idle effect (dependencies \<open>now\<close>, \<open>petState\<close>). It reads the cells of the render it
  belongs to (\<open>snap\<close>) and queues its updates on \<open>acc\<close>, where the refs live; both tests
  read the \<open>petState\<close> of the render, so an AWAKE pet idle for ten minutes is set DROWSY and
  then SLEEPING in one go.
\<close>

definition idleEffect :: "app \<Rightarrow> app \<Rightarrow> int \<Rightarrow> draw \<Rightarrow> app" where
  "idleEffect snap acc t r =
    (let since = now snap - lastInputRef acc;
         a1 = (if petState snap = AWAKE \<and> IDLE_TO_DROWSY_MS \<le> since
               then acc\<lparr>petState := DROWSY\<rparr> else acc);
         a2 = (if IDLE_TO_DROWSY_MS + DROWSY_TO_SLEEP_MS \<le> since \<and> petState snap \<noteq> SLEEPING
               then a1\<lparr>petState := SLEEPING, autoSleepStartedRef := True,
                       sleepUntil := Some (t + wakeSpan r)\<rparr>
               else a1)
     in a2)"

text \<open>
  The auto-wake effect (dependencies \<open>now\<close>, \<open>sleepUntil\<close>).
\<close>

definition autoWakeEffect :: "app \<Rightarrow> app \<Rightarrow> int \<Rightarrow> app" where
  "autoWakeEffect snap acc t =
    (case sleepUntil snap of
       None \<Rightarrow> acc
     | Some u \<Rightarrow>
         if u = 0 then acc
         else if u \<le> t
         then acc\<lparr>petState := AWAKE, sleepUntil := None, autoSleepStartedRef := False\<rparr>
         else acc)"

text \<open>
  One commit: after a render with cells \<open>cur\<close>, following a render with cells \<open>prev\<close>, each
  effect runs if one of its dependencies changed, in the order of the source, and the
  queued updates are applied in that order.
\<close>

definition runEffects :: "app \<Rightarrow> app \<Rightarrow> int \<Rightarrow> draw \<Rightarrow> app" where
  "runEffects prev cur t r =
    (let a1 = (if now cur \<noteq> now prev \<or> petState cur \<noteq> petState prev
               then idleEffect cur cur t r else cur);
         a2 = (if now cur \<noteq> now prev \<or> sleepUntil cur \<noteq> sleepUntil prev
               then autoWakeEffect cur a1 t else a1)
     in a2)"

text \<open>
  A change of a cell causes a render and, after it, a commit; updates queued by the effects
  of that commit cause another render and another commit. Two rounds are written out; lemma
  \<open>settle_stable\<close> below shows that a third one changes nothing, so that no further
  render follows. \<open>prev\<close> holds the cells of the render before, \<open>cur\<close> the changed cells.
\<close>

definition settle :: "app \<Rightarrow> app \<Rightarrow> int \<Rightarrow> draw \<Rightarrow> app" where
  "settle prev cur t r =
    (let c1 = render cur t;
         s1 = runEffects prev c1 t r;
         c2 = render s1 t;
         s2 = runEffects c1 c2 t r
     in s2)"

text \<open>
  The one-second interval: \<open>setNow(Date.now())\<close>, then the renders and commits it causes.
  Setting a cell to the value it has causes no render.
\<close>

definition tick :: "app \<Rightarrow> int \<Rightarrow> draw \<Rightarrow> app" where
  "tick s t r = (if now s = t then s else settle s (s\<lparr>now := t\<rparr>) t r)"

text \<open>
  The callback of the fifteen-second interval: the needs decay while the pet is awake or
  drowsy.
\<close>

definition decayTick :: "app \<Rightarrow> app" where
  "decayTick s =
    (if petState s = AWAKE \<or> petState s = DROWSY
     then s\<lparr>needs := \<lparr>hunger = clamp (hunger (needs s) - 1) 0 100,
                      cleanliness = clamp (cleanliness (needs s) - 1) 0 100,
                      playfulness = clamp (playfulness (needs s) - 1) 0 100,
                      affection = clamp (affection (needs s) - 1) 0 100\<rparr>\<rparr>
     else s)"

text \<open>
  The fifteen-second interval firing at clock reading \<open>t\<close>: when the callback decays,
  \<open>setNeeds\<close> stores a new object, and a render follows; none of the dependencies of the
  two effects has changed, so no effect runs.
\<close>

definition decayBeat :: "app \<Rightarrow> int \<Rightarrow> app" where
  "decayBeat s t =
    (if petState s = AWAKE \<or> petState s = DROWSY then render (decayTick s) t else s)"

text \<open>
  Any pointer or key input, and the page becoming visible, reset the idle clock.
\<close>

definition onAny :: "app \<Rightarrow> int \<Rightarrow> app" where
  "onAny s t = s\<lparr>lastInputRef := t\<rparr>"

text \<open>
  The quiet-time heartbeat. A render that follows it at the same clock reading finds the
  store as \<open>isQuietActive\<close> has just left it and changes nothing (lemma
  \<open>render_quietHeartbeat\<close> below).
\<close>

definition quietHeartbeat :: "app \<Rightarrow> int \<Rightarrow> app" where
  "quietHeartbeat s t =
    (let qa = isQuietActive (localStorage s) t
     in s\<lparr>localStorage := fst qa,
          quietUntil_state := (if active (snd qa) then until (snd qa) else None)\<rparr>)"

text \<open>
  The table of deltas in \<open>doAction\<close>, and the \<open>setNeeds\<close> updater that applies it;
  \<open>delta.hunger ?? 0\<close> is the \<open>case\<close> on the lookup.
\<close>

definition delta :: "ActionKind \<Rightarrow> NeedKey \<rightharpoonup> int" where
  "delta kind =
    (case kind of
       FEED \<Rightarrow> [Hunger \<mapsto> 15]
     | GROOM \<Rightarrow> [Cleanliness \<mapsto> 15]
     | PLAY \<Rightarrow> [Playfulness \<mapsto> 15]
     | CUDDLE \<Rightarrow> [Affection \<mapsto> 15])"

definition orZero :: "int option \<Rightarrow> int" where
  "orZero v = (case v of None \<Rightarrow> 0 | Some n \<Rightarrow> n)"

definition applyDelta :: "ActionKind \<Rightarrow> Needs \<Rightarrow> Needs" where
  "applyDelta kind n =
    \<lparr>hunger = clamp (hunger n + orZero (delta kind Hunger)) 0 100,
     cleanliness = clamp (cleanliness n + orZero (delta kind Cleanliness)) 0 100,
     playfulness = clamp (playfulness n + orZero (delta kind Playfulness)) 0 100,
     affection = clamp (affection n + orZero (delta kind Affection)) 0 100\<rparr>"

definition doAction :: "ActionKind \<Rightarrow> app \<Rightarrow> int \<Rightarrow> app" where
  "doAction kind s t =
    (let qa = isQuietActive (localStorage s) t
     in if active (snd qa)
        then s\<lparr>localStorage := fst qa, quietUntil_state := until (snd qa)\<rparr>
        else
          (let ra = registerAction (fst qa) t
           in s\<lparr>localStorage := fst ra,
                quietUntil_state := quietUntil (snd ra),
                petState := AWAKE,
                lastInputRef := t,
                sleepUntil := None,
                autoSleepStartedRef := False,
                needs := applyDelta kind (needs s)\<rparr>))"

definition tryWake :: "app \<Rightarrow> int \<Rightarrow> app" where
  "tryWake s t =
    (let qa = isQuietActive (localStorage s) t
     in if active (snd qa)
        then s\<lparr>localStorage := fst qa, quietUntil_state := until (snd qa)\<rparr>
        else s\<lparr>petState := AWAKE,
               sleepUntil := None,
               autoSleepStartedRef := False,
               lastInputRef := t,
               localStorage := fst (registerAction (fst qa) t)\<rparr>)"

text \<open>
  What the render computes for the buttons: \<open>quietActive\<close> at the render's clock reading
  \<open>tr\<close>, and the \<open>disabled\<close> attribute of the Play button. A disabled button does not call
  its \<open>onClick\<close> handler.
\<close>

definition quietActive :: "app \<Rightarrow> int \<Rightarrow> bool" where
  "quietActive s tr = (case quietUntil_state s of None \<Rightarrow> False | Some u \<Rightarrow> u \<noteq> 0 \<and> tr < u)"

definition playDisabled :: "app \<Rightarrow> int \<Rightarrow> bool" where
  "playDisabled s tr = (quietActive s tr \<or> petState s = SLEEPING)"

definition clickPlay :: "app \<Rightarrow> int \<Rightarrow> int \<Rightarrow> app" where
  "clickPlay s tr t = (if playDisabled s tr then s else doAction PLAY s t)"

section \<open>Runs\<close>

text \<open>
  What can happen to a mounted component: the three intervals firing, a call of \<open>doAction\<close>
  or \<open>tryWake\<close>, and a generic input. Each carries the clock reading at which it happens
  and, where a commit can follow, the value \<open>Math.random()\<close> would return in it.
\<close>

datatype event =
    Tick int draw
  | QuietBeat int
  | DecayBeat int
  | Act ActionKind int draw
  | Wake int draw
  | AnyInput int

fun step :: "app \<Rightarrow> event \<Rightarrow> app" where
  "step s (Tick t r) = tick s t r"
| "step s (QuietBeat t) = quietHeartbeat s t"
| "step s (DecayBeat t) = decayBeat s t"
| "step s (Act kind t r) = settle s (doAction kind s t) t r"
| "step s (Wake t r) = settle s (tryWake s t) t r"
| "step s (AnyInput t) = onAny s t"

definition run :: "app \<Rightarrow> event list \<Rightarrow> app" where
  "run s evs = foldl step s evs"

text \<open>
  A sequence of \<open>isQuietActive\<close> calls at the clock readings \<open>ts\<close>, nothing in between.
\<close>

fun checkAdmissions :: "storage \<Rightarrow> int list \<Rightarrow> storage" where
  "checkAdmissions st [] = st"
| "checkAdmissions st (t # ts) = checkAdmissions (fst (isQuietActive st t)) ts"

text \<open>
  The events that go on by themselves while nobody touches the page, besides the one-second
  interval: the decay tick and the quiet-time heartbeat.
\<close>

fun background :: "event \<Rightarrow> bool" where
  "background (DecayBeat t) = True"
| "background (QuietBeat t) = True"
| "background e = False"

text \<open>
  The component left alone from its mount: it is mounted at clock reading \<open>clock 0\<close>, the
  \<open>k\<close>-th firing of the one-second interval reads the clock as \<open>clock k\<close> and
  \<open>Math.random()\<close>, if called, returns \<open>rnd k\<close>, and after the \<open>k\<close>-th firing (after the
  mount, for \<open>k = 0\<close>) the events \<open>bg k\<close> happen.
\<close>

fun idleRun :: "storage \<Rightarrow> (nat \<Rightarrow> int) \<Rightarrow> (nat \<Rightarrow> draw) \<Rightarrow> (nat \<Rightarrow> event list) \<Rightarrow> nat \<Rightarrow> app" where
  "idleRun st clock rnd bg 0 = run (initApp st (clock 0)) (bg 0)"
| "idleRun st clock rnd bg (Suc k) =
     run (tick (idleRun st clock rnd bg k) (clock (Suc k)) (rnd (Suc k))) (bg (Suc k))"

text \<open>
  A random source for examples: \<open>Math.random()\<close> returning \<open>0\<close> every time.
\<close>

definition drawZero :: "nat \<Rightarrow> draw" where
  "drawZero k = Draw 0 53"

text \<open>
  Two schedules of the one-second interval for examples, after a mount at clock reading 0:
  firing on every full second, and firing one millisecond after every full second.
\<close>

definition everySecond :: "nat \<Rightarrow> int" where
  "everySecond k = 1000 * int k"

definition lateTicks :: "nat \<Rightarrow> int" where
  "lateTicks k = (if k = 0 then 0 else 1000 * int k + 1)"

text \<open>
  Background events for examples: after the \<open>k\<close>-th firing the quiet-time heartbeat, and
  after every fifteenth the decay tick before it, at the clock reading of the firing.
\<close>

definition usualBeats :: "(nat \<Rightarrow> int) \<Rightarrow> nat \<Rightarrow> event list" where
  "usualBeats clock k =
    (if 0 < k \<and> k mod 15 = 0 then [DecayBeat (clock k), QuietBeat (clock k)]
     else [QuietBeat (clock k)])"

text \<open>
  The range every need is meant to stay in.
\<close>

definition needs_ok :: "Needs \<Rightarrow> bool" where
  "needs_ok n =
    (0 \<le> hunger n \<and> hunger n \<le> 100 \<and> 0 \<le> cleanliness n \<and> cleanliness n \<le> 100 \<and>
     0 \<le> playfulness n \<and> playfulness n \<le> 100 \<and> 0 \<le> affection n \<and> affection n \<le> 100)"

section \<open>Facts about the gate\<close>

lemma loadMinutes_registerAction:
  "loadMinutes (fst (registerAction st t)) =
     (let kept = filter (\<lambda>m. nowMinute t - 59 \<le> m) (loadMinutes st)
      in if nowMinute t \<in> set kept then kept else kept @ [nowMinute t])"
  by (simp add: registerAction_def Let_def loadMinutes_def saveMinutes_def setQuietUntil_def
      purgeOld_def HOUR_MINUTES_def)

lemma getQuietUntil_registerAction:
  "getQuietUntil (fst (registerAction st t)) =
     (let n = int (length (loadMinutes (fst (registerAction st t))));
          start = (40 \<le> n \<and> (case getQuietUntil st of None \<Rightarrow> True | Some d \<Rightarrow> d = 0 \<or> d \<le> t));
          q1 = (if start then Some (t + 20 * 60 * 1000) else getQuietUntil st)
      in if (case q1 of None \<Rightarrow> False | Some d \<Rightarrow> d \<noteq> 0 \<and> d \<le> t) then None else q1)"
  by (simp add: registerAction_def Let_def loadMinutes_def saveMinutes_def setQuietUntil_def
      getQuietUntil_def ACTIVE_PLAY_LIMIT_def HOUR_MINUTES_def QUIET_MIN_PER_HOUR_def
      QUIET_BLOCK_MIN_def)

lemma snd_registerAction:
  "snd (registerAction st t) =
     \<lparr>quietUntil = getQuietUntil (fst (registerAction st t)),
      activeInWindow = int (length (loadMinutes (fst (registerAction st t))))\<rparr>"
  by (simp add: registerAction_def Let_def loadMinutes_def saveMinutes_def setQuietUntil_def
      getQuietUntil_def)

lemma registerAction_starts:
  assumes "case getQuietUntil st of None \<Rightarrow> True | Some d \<Rightarrow> d = 0"
    and "40 \<le> length (loadMinutes (fst (registerAction st t)))"
  shows "getQuietUntil (fst (registerAction st t)) = Some (t + 20 * 60 * 1000)"
proof -
  have "40 \<le> int (length (loadMinutes (fst (registerAction st t))))"
    using assms(2) by simp
  then show ?thesis
    using assms(1) by (subst getQuietUntil_registerAction) (auto simp: Let_def split: option.splits)
qed

lemma isQuietActive_minutes:
  "psim_actionMinutes (fst (isQuietActive st t)) = psim_actionMinutes st"
  by (simp add: isQuietActive_def getQuietUntil_def setQuietUntil_def split: option.splits)

lemma isQuietActive_deadline:
  "psim_quietUntil (fst (isQuietActive st t)) =
     (case psim_quietUntil st of
        None \<Rightarrow> None
      | Some d \<Rightarrow> if d \<noteq> 0 \<and> d \<le> t then None else Some d)"
  by (simp add: isQuietActive_def getQuietUntil_def setQuietUntil_def split: option.splits)

lemma isQuietActive_inactive:
  assumes "\<not> active (snd (isQuietActive st t))"
  shows "case getQuietUntil (fst (isQuietActive st t)) of None \<Rightarrow> True | Some d \<Rightarrow> d = 0"
  using assms
  by (auto simp: isQuietActive_def getQuietUntil_def setQuietUntil_def
      split: option.splits if_splits)

lemma window_bound:
  assumes "distinct (xs :: int list)" and "\<forall>m\<in>set xs. M - 59 \<le> m \<and> m \<le> M"
  shows "length xs \<le> 60"
proof -
  have "set xs \<subseteq> {M - 59..M}" using assms(2) by auto
  then have "card (set xs) \<le> card {M - 59..M}" by (intro card_mono) auto
  then show ?thesis using assms(1) by (simp add: distinct_card)
qed

subsection \<open>Starting the cooldown\<close>

text \<open>
  Claim C1. A call of \<open>registerAction\<close> at clock reading \<open>t\<close> (not before the epoch) stores
  the window pruned of the minutes older than the current minute less 59 and with the
  current minute inserted if it was missing, and then: the stored deadline becomes the new
  value \<open>t + 20 min\<close> if and only if that window holds at least 40 minutes and either no
  deadline was stored or the stored one has passed; otherwise the stored deadline is left
  as it was or, having lapsed, is cleared; a deadline that has not passed stays as it is;
  and the result carries the stored deadline (or none) and the size of that window.
\<close>

theorem registerAction_cooldown:
  assumes "0 \<le> t"
  shows "let st' = fst (registerAction st t);
             res = snd (registerAction st t);
             kept = filter (\<lambda>m. nowMinute t - 59 \<le> m) (loadMinutes st);
             window = (if nowMinute t \<in> set kept then kept else kept @ [nowMinute t]);
             n = int (length window);
             fresh = (40 \<le> n \<and> (case getQuietUntil st of None \<Rightarrow> True | Some d \<Rightarrow> d \<le> t))
         in loadMinutes st' = window
          \<and> ((getQuietUntil st' = Some (t + 20 * 60 * 1000) \<and> getQuietUntil st' \<noteq> getQuietUntil st)
               \<longleftrightarrow> fresh)
          \<and> (\<not> fresh \<longrightarrow> getQuietUntil st' = getQuietUntil st \<or> getQuietUntil st' = None)
          \<and> (\<forall>d. getQuietUntil st = Some d \<and> t < d \<longrightarrow> getQuietUntil st' = Some d)
          \<and> quietUntil res = getQuietUntil st'
          \<and> activeInWindow res = n"
proof -
  define n where "n = int (length (loadMinutes (fst (registerAction st t))))"
  define q where "q = getQuietUntil st"
  define q' where "q' = getQuietUntil (fst (registerAction st t))"
  have eq: "q' = (let start = (40 \<le> n \<and> (case q of None \<Rightarrow> True | Some d \<Rightarrow> d = 0 \<or> d \<le> t));
                      q1 = (if start then Some (t + 20 * 60 * 1000) else q)
                  in if (case q1 of None \<Rightarrow> False | Some d \<Rightarrow> d \<noteq> 0 \<and> d \<le> t) then None else q1)"
    unfolding q'_def n_def q_def by (subst getQuietUntil_registerAction) (simp add: Let_def)
  have "((q' = Some (t + 20 * 60 * 1000) \<and> q' \<noteq> q)
            \<longleftrightarrow> (40 \<le> n \<and> (case q of None \<Rightarrow> True | Some d \<Rightarrow> d \<le> t)))
      \<and> (\<not> (40 \<le> n \<and> (case q of None \<Rightarrow> True | Some d \<Rightarrow> d \<le> t)) \<longrightarrow> q' = q \<or> q' = None)
      \<and> (\<forall>d. q = Some d \<and> t < d \<longrightarrow> q' = Some d)"
    using assms unfolding eq by (cases q) (auto simp: Let_def)
  then have old: "((getQuietUntil (fst (registerAction st t)) = Some (t + 20 * 60 * 1000)
              \<and> getQuietUntil (fst (registerAction st t)) \<noteq> getQuietUntil st)
            \<longleftrightarrow> (40 \<le> int (length (loadMinutes (fst (registerAction st t))))
                 \<and> (case getQuietUntil st of None \<Rightarrow> True | Some d \<Rightarrow> d \<le> t)))
      \<and> (\<not> (40 \<le> int (length (loadMinutes (fst (registerAction st t))))
             \<and> (case getQuietUntil st of None \<Rightarrow> True | Some d \<Rightarrow> d \<le> t)) \<longrightarrow>
             getQuietUntil (fst (registerAction st t)) = getQuietUntil st
           \<or> getQuietUntil (fst (registerAction st t)) = None)
      \<and> (\<forall>d. getQuietUntil st = Some d \<and> t < d \<longrightarrow>
             getQuietUntil (fst (registerAction st t)) = Some d)"
    unfolding n_def q_def q'_def .
  have res: "quietUntil (snd (registerAction st t)) = getQuietUntil (fst (registerAction st t))"
    "activeInWindow (snd (registerAction st t))
       = int (length (loadMinutes (fst (registerAction st t))))"
    by (simp_all add: snd_registerAction)
  have win: "(if nowMinute t \<in> set (filter (\<lambda>m. nowMinute t - 59 \<le> m) (loadMinutes st))
              then filter (\<lambda>m. nowMinute t - 59 \<le> m) (loadMinutes st)
              else filter (\<lambda>m. nowMinute t - 59 \<le> m) (loadMinutes st) @ [nowMinute t])
             = loadMinutes (fst (registerAction st t))"
    by (simp only: loadMinutes_registerAction Let_def)
  show ?thesis
    unfolding Let_def win res using old by simp
qed

theorem registerAction_cooldown_witness:
  "(0::int) \<le> 2340005
   \<and> loadMinutes (fst (registerAction
        \<lparr>psim_actionMinutes = Some [0..38], psim_quietUntil = None\<rparr> 2340005)) = [0..39]
   \<and> getQuietUntil (fst (registerAction
        \<lparr>psim_actionMinutes = Some [0..38], psim_quietUntil = None\<rparr> 2340005)) = Some 3540005
   \<and> quietUntil (snd (registerAction
        \<lparr>psim_actionMinutes = Some [0..38], psim_quietUntil = None\<rparr> 2340005)) = Some 3540005
   \<and> activeInWindow (snd (registerAction
        \<lparr>psim_actionMinutes = Some [0..38], psim_quietUntil = None\<rparr> 2340005)) = 40
   \<and> getQuietUntil (fst (registerAction
        \<lparr>psim_actionMinutes = Some [0..39], psim_quietUntil = Some 3540005\<rparr> 2340999)) = Some 3540005
   \<and> loadMinutes (fst (registerAction
        \<lparr>psim_actionMinutes = Some [0..38], psim_quietUntil = None\<rparr> 864000000)) = [14400]
   \<and> getQuietUntil (fst (registerAction
        \<lparr>psim_actionMinutes = Some [0..38], psim_quietUntil = None\<rparr> 864000000)) = None
   \<and> activeInWindow (snd (registerAction
        \<lparr>psim_actionMinutes = Some [0..38], psim_quietUntil = None\<rparr> 864000000)) = 1"
proof -
  let ?a = "\<lparr>psim_actionMinutes = Some [0..38], psim_quietUntil = None\<rparr>"
  let ?b = "\<lparr>psim_actionMinutes = Some [0..39], psim_quietUntil = Some 3540005\<rparr>"
  have h1: "(0::int) \<le> 2340005" and h2: "(0::int) \<le> 2340999" and h3: "(0::int) \<le> 864000000"
    by simp_all
  have q: "getQuietUntil ?a = None" "getQuietUntil ?b = Some 3540005"
    by (simp_all add: getQuietUntil_def)
  have w1: "(let kept = filter (\<lambda>m. nowMinute 2340005 - 59 \<le> m) (loadMinutes ?a)
             in if nowMinute 2340005 \<in> set kept then kept else kept @ [nowMinute 2340005])
            = [0..39]"
    by code_simp
  have w2: "(let kept = filter (\<lambda>m. nowMinute 2340999 - 59 \<le> m) (loadMinutes ?b)
             in if nowMinute 2340999 \<in> set kept then kept else kept @ [nowMinute 2340999])
            = [0..39]"
    by code_simp
  have w3: "(let kept = filter (\<lambda>m. nowMinute 864000000 - 59 \<le> m) (loadMinutes ?a)
             in if nowMinute 864000000 \<in> set kept then kept else kept @ [nowMinute 864000000])
            = [14400]"
    by code_simp
  have l: "int (length [0..39::int]) = 40" by code_simp
  from registerAction_cooldown[OF h1, of ?a]
  have 1: "loadMinutes (fst (registerAction ?a 2340005)) = [0..39]
      \<and> getQuietUntil (fst (registerAction ?a 2340005)) = Some 3540005
      \<and> quietUntil (snd (registerAction ?a 2340005)) = Some 3540005
      \<and> activeInWindow (snd (registerAction ?a 2340005)) = 40"
    unfolding w1[unfolded Let_def] Let_def q l by simp
  from registerAction_cooldown[OF h2, of ?b]
  have 2: "getQuietUntil (fst (registerAction ?b 2340999)) = Some 3540005"
    unfolding w2[unfolded Let_def] Let_def q l by simp
  from registerAction_cooldown[OF h3, of ?a]
  have 3: "loadMinutes (fst (registerAction ?a 864000000)) = [14400]
      \<and> getQuietUntil (fst (registerAction ?a 864000000)) = None
      \<and> activeInWindow (snd (registerAction ?a 864000000)) = 1"
    unfolding w3[unfolded Let_def] Let_def q by simp
  from h1 1 2 3 show ?thesis by simp
qed

subsection \<open>The window\<close>

text \<open>
  Claim C6, as stated, fails in its last part: the window can grow beyond 60. Pruning only
  drops minutes older than \<open>M - 59\<close>, so minutes later than \<open>M\<close> (written before the clock
  was set back) stay. With the sixty minutes 1 to 60 stored, a call in minute 0 leaves 61.
\<close>

theorem registerAction_window_counterexample:
  "\<not> length (loadMinutes (fst (registerAction
        \<lparr>psim_actionMinutes = Some [1..60], psim_quietUntil = None\<rparr> 0))) \<le> 60"
  by code_simp

text \<open>
  Claim C6, amended. A call of \<open>registerAction\<close> in minute \<open>M\<close> keeps exactly the stored
  minutes not less than \<open>M - 59\<close>, in their order, and appends \<open>M\<close> only if it is not among
  them; a further call in the same minute leaves the window as it is; and if the stored
  window has no duplicates and no minute later than \<open>M\<close>, the same holds afterwards and
  the window has at most 60 entries.
\<close>

theorem registerAction_window:
  "let M = nowMinute t; old = loadMinutes st; new = loadMinutes (fst (registerAction st t))
   in new = (if M \<in> set old then filter (\<lambda>m. M - 59 \<le> m) old
             else filter (\<lambda>m. M - 59 \<le> m) old @ [M])
    \<and> (\<forall>m\<in>set new. M - 59 \<le> m)
    \<and> (\<forall>t'. nowMinute t' = M \<longrightarrow>
          loadMinutes (fst (registerAction (fst (registerAction st t)) t')) = new)
    \<and> (distinct old \<and> (\<forall>m\<in>set old. m \<le> M) \<longrightarrow>
          distinct new \<and> (\<forall>m\<in>set new. m \<le> M) \<and> length new \<le> 60)"
proof -
  define M where "M = nowMinute t"
  define old where "old = loadMinutes st"
  define new where "new = loadMinutes (fst (registerAction st t))"
  have new_eq: "new = (if M \<in> set old then filter (\<lambda>m. M - 59 \<le> m) old
                       else filter (\<lambda>m. M - 59 \<le> m) old @ [M])"
    unfolding new_def M_def old_def by (simp add: loadMinutes_registerAction Let_def)
  have lower: "\<forall>m\<in>set new. M - 59 \<le> m"
    by (auto simp: new_eq)
  have again: "loadMinutes (fst (registerAction (fst (registerAction st t)) t')) = new"
    if "nowMinute t' = M" for t'
  proof -
    have "M \<in> set new" by (auto simp: new_eq)
    moreover have "filter (\<lambda>m. M - 59 \<le> m) new = new"
      using lower by (simp add: filter_id_conv)
    ultimately show ?thesis
      using that
      by (simp add: loadMinutes_registerAction[of "fst (registerAction st t)"] Let_def
          new_def[symmetric])
  qed
  have bound: "distinct new \<and> (\<forall>m\<in>set new. m \<le> M) \<and> length new \<le> 60"
    if "distinct old" and "\<forall>m\<in>set old. m \<le> M"
  proof -
    have d: "distinct new" using that(1) by (auto simp: new_eq)
    have u: "\<forall>m\<in>set new. m \<le> M" using that(2) by (auto simp: new_eq)
    from window_bound[OF d, of M] lower u have "length new \<le> 60" by blast
    with d u show ?thesis by blast
  qed
  show ?thesis
    unfolding Let_def M_def[symmetric] old_def[symmetric] new_def[symmetric]
    using new_eq lower again bound by blast
qed

theorem registerAction_window_witness:
  "loadMinutes (fst (registerAction
      \<lparr>psim_actionMinutes = Some [0..62], psim_quietUntil = None\<rparr> 3780005)) = [4..63]
   \<and> distinct (loadMinutes (fst (registerAction
      \<lparr>psim_actionMinutes = Some [0..62], psim_quietUntil = None\<rparr> 3780005)))
   \<and> length (loadMinutes (fst (registerAction
      \<lparr>psim_actionMinutes = Some [0..62], psim_quietUntil = None\<rparr> 3780005))) \<le> 60"
proof -
  let ?st = "\<lparr>psim_actionMinutes = Some [0..62], psim_quietUntil = None\<rparr>"
  have d: "distinct (loadMinutes ?st)" by code_simp
  have u: "\<forall>m\<in>set (loadMinutes ?st). m \<le> nowMinute 3780005" by code_simp
  have e: "(if nowMinute 3780005 \<in> set (loadMinutes ?st)
            then filter (\<lambda>m. nowMinute 3780005 - 59 \<le> m) (loadMinutes ?st)
            else filter (\<lambda>m. nowMinute 3780005 - 59 \<le> m) (loadMinutes ?st) @ [nowMinute 3780005])
           = [4..63]" by code_simp
  from registerAction_window[of 3780005 ?st] d u e show ?thesis
    unfolding Let_def by simp
qed

subsection \<open>Checking admission\<close>

text \<open>
  Claim C7, as stated, fails: \<open>isQuietActive\<close> removes a stored deadline that has passed.
  With the deadline 1200000 stored, a check one millisecond after it changes the store.
\<close>

theorem checkAdmission_counterexample:
  "fst (isQuietActive \<lparr>psim_actionMinutes = Some [0], psim_quietUntil = Some 1200000\<rparr> 1200001)
   \<noteq> \<lparr>psim_actionMinutes = Some [0], psim_quietUntil = Some 1200000\<rparr>"
  by (simp add: isQuietActive_def getQuietUntil_def setQuietUntil_def)

text \<open>
  Claim C7, amended. A sequence of \<open>isQuietActive\<close> calls with nothing in between never
  changes the stored window; it leaves the stored deadline as it was unless the deadline
  had passed at one of the calls, in which case the deadline is cleared; and a second call
  at the same clock reading changes nothing further and gives the same answer.
\<close>

theorem checkAdmission_state:
  "psim_actionMinutes (checkAdmissions st ts) = psim_actionMinutes st
   \<and> psim_quietUntil (checkAdmissions st ts) =
       (case psim_quietUntil st of
          None \<Rightarrow> None
        | Some d \<Rightarrow> if d \<noteq> 0 \<and> (\<exists>t\<in>set ts. d \<le> t) then None else Some d)
   \<and> (\<forall>t. isQuietActive (fst (isQuietActive st t)) t
           = (fst (isQuietActive st t), snd (isQuietActive st t)))"
proof (intro conjI allI)
  show "psim_actionMinutes (checkAdmissions st ts) = psim_actionMinutes st"
    by (induction ts arbitrary: st) (simp_all add: isQuietActive_minutes)
  show "psim_quietUntil (checkAdmissions st ts) =
       (case psim_quietUntil st of
          None \<Rightarrow> None
        | Some d \<Rightarrow> if d \<noteq> 0 \<and> (\<exists>t\<in>set ts. d \<le> t) then None else Some d)"
    by (induction ts arbitrary: st) (auto simp: isQuietActive_deadline split: option.splits)
  show "isQuietActive (fst (isQuietActive st t)) t
          = (fst (isQuietActive st t), snd (isQuietActive st t))" for t
    by (auto simp: isQuietActive_def getQuietUntil_def setQuietUntil_def split: option.splits)
qed

theorem checkAdmission_state_witness:
  "psim_actionMinutes (checkAdmissions
      \<lparr>psim_actionMinutes = Some [0..39], psim_quietUntil = Some 3540005\<rparr>
      [3540003, 3540004]) = Some [0..39]
   \<and> psim_quietUntil (checkAdmissions
      \<lparr>psim_actionMinutes = Some [0..39], psim_quietUntil = Some 3540005\<rparr>
      [3540003, 3540004]) = Some 3540005
   \<and> psim_quietUntil (checkAdmissions
      \<lparr>psim_actionMinutes = Some [0..39], psim_quietUntil = Some 3540005\<rparr>
      [3540004, 3540006]) = None"
  using checkAdmission_state[of "\<lparr>psim_actionMinutes = Some [0..39], psim_quietUntil = Some 3540005\<rparr>"
      "[3540003, 3540004]"]
    checkAdmission_state[of "\<lparr>psim_actionMinutes = Some [0..39], psim_quietUntil = Some 3540005\<rparr>"
      "[3540004, 3540006]"]
  by simp

section \<open>Facts about the pet\<close>

lemma clamp_range: "0 \<le> clamp n 0 100 \<and> clamp n 0 100 \<le> 100"
  by (simp add: clamp_def)

lemma needs_ok_applyDelta: "needs_ok (applyDelta kind n)"
  by (simp add: needs_ok_def applyDelta_def clamp_range)

lemma needs_idleEffect: "needs (idleEffect snap acc t r) = needs acc"
  by (simp add: idleEffect_def Let_def)

lemma needs_autoWakeEffect: "needs (autoWakeEffect snap acc t) = needs acc"
  by (simp add: autoWakeEffect_def split: option.splits)

lemma needs_runEffects: "needs (runEffects prev cur t r) = needs cur"
  by (simp add: runEffects_def Let_def needs_idleEffect needs_autoWakeEffect)

lemma needs_render: "needs (render s t) = needs s"
  by (simp add: render_def)

lemma needs_settle: "needs (settle prev cur t r) = needs cur"
  by (simp add: settle_def Let_def needs_runEffects needs_render)

lemma needs_doAction:
  "needs (doAction kind s t) =
     (if active (snd (isQuietActive (localStorage s) t)) then needs s
      else applyDelta kind (needs s))"
  by (simp add: doAction_def Let_def)

lemma needs_tryWake: "needs (tryWake s t) = needs s"
  by (simp add: tryWake_def Let_def)

lemma needs_ok_decayTick: "needs_ok (needs s) \<Longrightarrow> needs_ok (needs (decayTick s))"
  by (simp add: decayTick_def needs_ok_def clamp_range)

lemma needs_ok_step: "needs_ok (needs s) \<Longrightarrow> needs_ok (needs (step s e))"
  by (cases e)
     (simp_all add: tick_def needs_settle quietHeartbeat_def Let_def needs_ok_decayTick
        decayBeat_def needs_render needs_doAction needs_tryWake needs_ok_applyDelta onAny_def)

lemma needs_ok_run: "needs_ok (needs s) \<Longrightarrow> needs_ok (needs (run s evs))"
  unfolding run_def by (induction evs arbitrary: s) (simp_all add: needs_ok_step)

lemma needs_ok_initApp: "needs_ok (needs (initApp st t0))"
  by (simp add: initApp_def Let_def needs_ok_def)

lemma applyDelta_fields:
  assumes "needs_ok n"
  shows "hunger (applyDelta kind n) = (if kind = FEED then min 100 (hunger n + 15) else hunger n)"
    and "cleanliness (applyDelta kind n)
           = (if kind = GROOM then min 100 (cleanliness n + 15) else cleanliness n)"
    and "playfulness (applyDelta kind n)
           = (if kind = PLAY then min 100 (playfulness n + 15) else playfulness n)"
    and "affection (applyDelta kind n)
           = (if kind = CUDDLE then min 100 (affection n + 15) else affection n)"
  using assms
  by (cases kind; simp add: applyDelta_def delta_def orZero_def clamp_def needs_ok_def)+

subsection \<open>The needs stay in range\<close>

text \<open>
  Claim C4. From the mounted component on, whatever happens (interval ticks, decay ticks,
  actions admitted or not, wake-ups, inputs), each of the four needs is an integer between 0
  and 100; so it is from any state whose needs are in range. There a decay tick on a pet
  that is not asleep subtracts 1 from each need, stopping at 0, and an action adds 15 to its
  own need, stopping at 100, and leaves the others. The needs are fields of a record of
  integers, so none can be undefined.
\<close>

theorem needs_in_range:
  "needs_ok (needs (run (initApp st t0) evs))
   \<and> (needs_ok (needs s) \<longrightarrow> needs_ok (needs (run s evs)))
   \<and> (needs_ok (needs s) \<longrightarrow>
        needs (decayTick s) =
          (if petState s = SLEEPING then needs s
           else \<lparr>hunger = max 0 (hunger (needs s) - 1),
                 cleanliness = max 0 (cleanliness (needs s) - 1),
                 playfulness = max 0 (playfulness (needs s) - 1),
                 affection = max 0 (affection (needs s) - 1)\<rparr>))
   \<and> (needs_ok n \<longrightarrow>
        applyDelta kind n =
          \<lparr>hunger = (if kind = FEED then min 100 (hunger n + 15) else hunger n),
           cleanliness = (if kind = GROOM then min 100 (cleanliness n + 15) else cleanliness n),
           playfulness = (if kind = PLAY then min 100 (playfulness n + 15) else playfulness n),
           affection = (if kind = CUDDLE then min 100 (affection n + 15) else affection n)\<rparr>)"
proof (intro conjI impI)
  show "needs_ok (needs (run (initApp st t0) evs))"
    by (rule needs_ok_run) (rule needs_ok_initApp)
  show "needs_ok (needs (run s evs))" if "needs_ok (needs s)"
    using that by (rule needs_ok_run)
  show "needs (decayTick s) =
          (if petState s = SLEEPING then needs s
           else \<lparr>hunger = max 0 (hunger (needs s) - 1),
                 cleanliness = max 0 (cleanliness (needs s) - 1),
                 playfulness = max 0 (playfulness (needs s) - 1),
                 affection = max 0 (affection (needs s) - 1)\<rparr>)" if "needs_ok (needs s)"
    using that by (cases "petState s") (simp_all add: decayTick_def clamp_def needs_ok_def)
  show "applyDelta kind n =
          \<lparr>hunger = (if kind = FEED then min 100 (hunger n + 15) else hunger n),
           cleanliness = (if kind = GROOM then min 100 (cleanliness n + 15) else cleanliness n),
           playfulness = (if kind = PLAY then min 100 (playfulness n + 15) else playfulness n),
           affection = (if kind = CUDDLE then min 100 (affection n + 15) else affection n)\<rparr>"
    if "needs_ok n"
    using applyDelta_fields[OF that, of kind] by (simp add: applyDelta_def)
qed

theorem needs_in_range_witness:
  "needs_ok (needs (run (initApp \<lparr>psim_actionMinutes = None, psim_quietUntil = None\<rparr> 0)
      [Act FEED 1000 (Draw 0 53), DecayBeat 1500, Act FEED 2000 (Draw 0 53), Act FEED 3000 (Draw 0 53)]))
   \<and> needs (decayTick (initApp \<lparr>psim_actionMinutes = None, psim_quietUntil = None\<rparr> 0))
       = \<lparr>hunger = 69, cleanliness = 69, playfulness = 69, affection = 69\<rparr>
   \<and> applyDelta FEED \<lparr>hunger = 90, cleanliness = 0, playfulness = 100, affection = 50\<rparr>
       = \<lparr>hunger = 100, cleanliness = 0, playfulness = 100, affection = 50\<rparr>"
proof -
  let ?s = "initApp \<lparr>psim_actionMinutes = None, psim_quietUntil = None\<rparr> 0"
  let ?n = "\<lparr>hunger = 90, cleanliness = 0, playfulness = 100, affection = 50\<rparr>"
  have a: "needs_ok (needs ?s)" by (simp add: initApp_def Let_def needs_ok_def)
  have b: "needs_ok ?n" by (simp add: needs_ok_def)
  have c: "petState ?s = AWAKE" "needs ?s = \<lparr>hunger = 70, cleanliness = 70, playfulness = 70, affection = 70\<rparr>"
    by (simp_all add: initApp_def Let_def)
  from needs_in_range[of "\<lparr>psim_actionMinutes = None, psim_quietUntil = None\<rparr>" 0
      "[Act FEED 1000 (Draw 0 53), DecayBeat 1500, Act FEED 2000 (Draw 0 53), Act FEED 3000 (Draw 0 53)]" ?s ?n FEED] a b
  show ?thesis by (simp add: c)
qed

subsection \<open>Actions\<close>

text \<open>
  Claim C3. While a stored deadline has not passed, \<open>doAction\<close> of any kind changes nothing
  but the displayed deadline: the needs, the pet's state, the idle clock, the auto-wake
  deadline and the stored window and deadline are as before, and the deadline is what is
  reported back.
\<close>

theorem doAction_blocked:
  assumes "0 \<le> t" and "getQuietUntil (localStorage s) = Some d" and "t < d"
  shows "doAction kind s t = s\<lparr>quietUntil_state := Some d\<rparr>"
  using assms by (simp add: doAction_def isQuietActive_def Let_def)

theorem doAction_blocked_witness:
  "(0::int) \<le> 2340007 \<and> (2340007::int) < 3540005
   \<and> doAction FEED (initApp \<lparr>psim_actionMinutes = Some [0..39], psim_quietUntil = Some 3540005\<rparr> 2340006) 2340007
     = initApp \<lparr>psim_actionMinutes = Some [0..39], psim_quietUntil = Some 3540005\<rparr> 2340006"
proof -
  let ?st = "\<lparr>psim_actionMinutes = Some [0..39], psim_quietUntil = Some 3540005\<rparr>"
  have i: "initApp ?st 2340006 =
     \<lparr>petState = AWAKE,
      needs = \<lparr>hunger = 70, cleanliness = 70, playfulness = 70, affection = 70\<rparr>,
      quietUntil_state = Some 3540005, now = 2340006, sleepUntil = None,
      lastInputRef = 2340006, autoSleepStartedRef = False, localStorage = ?st\<rparr>"
    by (simp add: initApp_def isQuietActive_def getQuietUntil_def Let_def)
  have h1: "(0::int) \<le> 2340007" and h3: "(2340007::int) < 3540005" by simp_all
  have h2: "getQuietUntil (localStorage (initApp ?st 2340006)) = Some 3540005"
    unfolding i by (simp add: getQuietUntil_def)
  from doAction_blocked[OF h1 h2 h3, of FEED] show ?thesis
    unfolding i by simp
qed

text \<open>
  Claim C5. When quiet time is not active, \<open>doAction\<close> sets the pet AWAKE whatever its state
  was, sets the idle clock to the time of the call and clears the auto-wake deadline; with
  the needs in range, it raises the one need of the action by 15, stopping at 100, and
  leaves the other three as they are. From 70 everywhere, FEED gives hunger 85.
\<close>

theorem doAction_admitted:
  assumes "\<not> active (snd (isQuietActive (localStorage s) t))" and "needs_ok (needs s)"
  shows "petState (doAction kind s t) = AWAKE
       \<and> lastInputRef (doAction kind s t) = t
       \<and> sleepUntil (doAction kind s t) = None
       \<and> needs (doAction kind s t) =
           (case kind of
              FEED \<Rightarrow> (needs s)\<lparr>hunger := min 100 (hunger (needs s) + 15)\<rparr>
            | GROOM \<Rightarrow> (needs s)\<lparr>cleanliness := min 100 (cleanliness (needs s) + 15)\<rparr>
            | PLAY \<Rightarrow> (needs s)\<lparr>playfulness := min 100 (playfulness (needs s) + 15)\<rparr>
            | CUDDLE \<Rightarrow> (needs s)\<lparr>affection := min 100 (affection (needs s) + 15)\<rparr>)"
proof -
  have "needs (doAction kind s t) = applyDelta kind (needs s)"
    using assms(1) by (simp add: needs_doAction)
  moreover have "applyDelta kind (needs s) =
           (case kind of
              FEED \<Rightarrow> (needs s)\<lparr>hunger := min 100 (hunger (needs s) + 15)\<rparr>
            | GROOM \<Rightarrow> (needs s)\<lparr>cleanliness := min 100 (cleanliness (needs s) + 15)\<rparr>
            | PLAY \<Rightarrow> (needs s)\<lparr>playfulness := min 100 (playfulness (needs s) + 15)\<rparr>
            | CUDDLE \<Rightarrow> (needs s)\<lparr>affection := min 100 (affection (needs s) + 15)\<rparr>)"
    using applyDelta_fields[OF assms(2), of kind] by (cases kind) (simp_all add: applyDelta_def)
  ultimately show ?thesis
    using assms(1) by (simp add: doAction_def Let_def)
qed

theorem doAction_admitted_witness:
  "petState (doAction FEED (initApp \<lparr>psim_actionMinutes = None, psim_quietUntil = None\<rparr> 0) 5000) = AWAKE
   \<and> lastInputRef (doAction FEED (initApp \<lparr>psim_actionMinutes = None, psim_quietUntil = None\<rparr> 0) 5000) = 5000
   \<and> sleepUntil (doAction FEED (initApp \<lparr>psim_actionMinutes = None, psim_quietUntil = None\<rparr> 0) 5000) = None
   \<and> needs (doAction FEED (initApp \<lparr>psim_actionMinutes = None, psim_quietUntil = None\<rparr> 0) 5000)
       = \<lparr>hunger = 85, cleanliness = 70, playfulness = 70, affection = 70\<rparr>"
proof -
  let ?s = "initApp \<lparr>psim_actionMinutes = None, psim_quietUntil = None\<rparr> 0"
  have i: "needs ?s = \<lparr>hunger = 70, cleanliness = 70, playfulness = 70, affection = 70\<rparr>"
    "localStorage ?s = \<lparr>psim_actionMinutes = None, psim_quietUntil = None\<rparr>"
    by (simp_all add: initApp_def isQuietActive_def getQuietUntil_def Let_def)
  have h1: "\<not> active (snd (isQuietActive (localStorage ?s) 5000))"
    unfolding i by (simp add: isQuietActive_def getQuietUntil_def)
  have h2: "needs_ok (needs ?s)" unfolding i by (simp add: needs_ok_def)
  from doAction_admitted[OF h1 h2, of FEED] show ?thesis
    unfolding i by simp
qed

text \<open>
  Claim C10. When quiet time is not active, \<open>tryWake\<close> calls \<open>registerAction\<close>: the minute
  of the call is in the stored window afterwards, and if the window then holds 40 minutes
  or more the twenty-minute cooldown starts with this call. The pet is set AWAKE, the
  auto-wake deadline is cleared, the idle clock is set to the time of the call, and no need
  changes.
\<close>

theorem tryWake_registers:
  assumes "\<not> active (snd (isQuietActive (localStorage s) t))"
  shows "localStorage (tryWake s t) = fst (registerAction (fst (isQuietActive (localStorage s) t)) t)
       \<and> nowMinute t \<in> set (loadMinutes (localStorage (tryWake s t)))
       \<and> (40 \<le> length (loadMinutes (localStorage (tryWake s t))) \<longrightarrow>
            getQuietUntil (localStorage (tryWake s t)) = Some (t + 20 * 60 * 1000))
       \<and> petState (tryWake s t) = AWAKE
       \<and> sleepUntil (tryWake s t) = None
       \<and> lastInputRef (tryWake s t) = t
       \<and> needs (tryWake s t) = needs s"
proof -
  have ls: "localStorage (tryWake s t) = fst (registerAction (fst (isQuietActive (localStorage s) t)) t)"
    using assms by (simp add: tryWake_def Let_def)
  have mem: "nowMinute t \<in> set (loadMinutes (localStorage (tryWake s t)))"
    unfolding ls by (simp add: loadMinutes_registerAction Let_def)
  have cool: "getQuietUntil (localStorage (tryWake s t)) = Some (t + 20 * 60 * 1000)"
    if "40 \<le> length (loadMinutes (localStorage (tryWake s t)))"
    using that registerAction_starts[OF isQuietActive_inactive[OF assms], of t] unfolding ls by simp
  have rest: "petState (tryWake s t) = AWAKE \<and> sleepUntil (tryWake s t) = None
       \<and> lastInputRef (tryWake s t) = t \<and> needs (tryWake s t) = needs s"
    using assms by (simp add: tryWake_def Let_def)
  from ls mem cool rest show ?thesis by blast
qed

theorem tryWake_registers_witness:
  "loadMinutes (localStorage (tryWake
      ((initApp \<lparr>psim_actionMinutes = Some [0..38], psim_quietUntil = None\<rparr> 1600000)
         \<lparr>petState := SLEEPING, sleepUntil := Some 2500000\<rparr>) 2340005)) = [0..39]
   \<and> getQuietUntil (localStorage (tryWake
      ((initApp \<lparr>psim_actionMinutes = Some [0..38], psim_quietUntil = None\<rparr> 1600000)
         \<lparr>petState := SLEEPING, sleepUntil := Some 2500000\<rparr>) 2340005)) = Some 3540005
   \<and> petState (tryWake
      ((initApp \<lparr>psim_actionMinutes = Some [0..38], psim_quietUntil = None\<rparr> 1600000)
         \<lparr>petState := SLEEPING, sleepUntil := Some 2500000\<rparr>) 2340005) = AWAKE
   \<and> sleepUntil (tryWake
      ((initApp \<lparr>psim_actionMinutes = Some [0..38], psim_quietUntil = None\<rparr> 1600000)
         \<lparr>petState := SLEEPING, sleepUntil := Some 2500000\<rparr>) 2340005) = None"
proof -
  let ?st = "\<lparr>psim_actionMinutes = Some [0..38], psim_quietUntil = None\<rparr>"
  let ?s = "(initApp ?st 1600000)\<lparr>petState := SLEEPING, sleepUntil := Some 2500000\<rparr>"
  have ls0: "localStorage ?s = ?st"
    by (simp add: initApp_def isQuietActive_def getQuietUntil_def Let_def)
  have q: "isQuietActive ?st 2340005 = (?st, \<lparr>active = False, until = None\<rparr>)"
    by (simp add: isQuietActive_def getQuietUntil_def)
  have h: "\<not> active (snd (isQuietActive (localStorage ?s) 2340005))"
    unfolding ls0 by (simp add: q)
  note T = tryWake_registers[OF h]
  have ls: "localStorage (tryWake ?s 2340005) = fst (registerAction ?st 2340005)"
    using T[THEN conjunct1] unfolding ls0 by (simp add: q)
  have w: "loadMinutes (fst (registerAction ?st 2340005)) = [0..39]" by code_simp
  have l: "length [0..39::int] = 40" by code_simp
  have c: "getQuietUntil (localStorage (tryWake ?s 2340005)) = Some 3540005"
    using T[THEN conjunct2, THEN conjunct2, THEN conjunct1] unfolding ls w l by simp
  have p: "petState (tryWake ?s 2340005) = AWAKE" "sleepUntil (tryWake ?s 2340005) = None"
    using T by blast+
  show ?thesis
    using c p w unfolding ls by simp
qed

text \<open>
  A pet asleep: the state ten minutes after the mount when nobody touched the page, the
  one-second interval firing on every full second and every draw being 0.
\<close>

lemma drowsy_pet_reachable:
  "idleRun \<lparr>psim_actionMinutes = None, psim_quietUntil = None\<rparr> everySecond drawZero
      (usualBeats everySecond) 599
   = \<lparr>petState = DROWSY,
      needs = \<lparr>hunger = 31, cleanliness = 31, playfulness = 31, affection = 31\<rparr>,
      quietUntil_state = None, now = 599000, sleepUntil = None,
      lastInputRef = 0, autoSleepStartedRef = False,
      localStorage = \<lparr>psim_actionMinutes = None, psim_quietUntil = None\<rparr>\<rparr>"
  by code_simp

lemma wakeSpan_drawZero: "wakeSpan (drawZero k) = 300000"
  by (simp add: wakeSpan_def timesFloor_def round53_def drawZero_def AUTO_WAKE_MIN_MS_def)

lemma sleeping_pet_reachable:
  "idleRun \<lparr>psim_actionMinutes = None, psim_quietUntil = None\<rparr> everySecond drawZero
      (usualBeats everySecond) 600
   = \<lparr>petState = SLEEPING,
      needs = \<lparr>hunger = 31, cleanliness = 31, playfulness = 31, affection = 31\<rparr>,
      quietUntil_state = None, now = 600000, sleepUntil = Some 900000,
      lastInputRef = 0, autoSleepStartedRef = True,
      localStorage = \<lparr>psim_actionMinutes = None, psim_quietUntil = None\<rparr>\<rparr>"
proof -
  have n: "(600::nat) = Suc 599" by simp
  show ?thesis
    unfolding n idleRun.simps drowsy_pet_reachable
    by (simp add: wakeSpan_drawZero tick_def settle_def render_def runEffects_def idleEffect_def
        autoWakeEffect_def isQuietActive_def getQuietUntil_def everySecond_def usualBeats_def
        run_def decayBeat_def quietHeartbeat_def IDLE_TO_DROWSY_MS_def DROWSY_TO_SLEEP_MS_def
        Let_def)
qed

text \<open>
  Claim C2, as stated, fails: \<open>doAction\<close> has no test of the pet's state. Called with PLAY
  on that SLEEPING pet one second later, quiet time not being active, it wakes the pet,
  raises playfulness and records the minute.
\<close>

theorem play_while_sleeping_counterexample:
  "petState (doAction PLAY
      \<lparr>petState = SLEEPING,
        needs = \<lparr>hunger = 31, cleanliness = 31, playfulness = 31, affection = 31\<rparr>,
        quietUntil_state = None, now = 600000, sleepUntil = Some 900000,
        lastInputRef = 0, autoSleepStartedRef = True,
        localStorage = \<lparr>psim_actionMinutes = None, psim_quietUntil = None\<rparr>\<rparr> 601000) = AWAKE
   \<and> playfulness (needs (doAction PLAY
      \<lparr>petState = SLEEPING,
        needs = \<lparr>hunger = 31, cleanliness = 31, playfulness = 31, affection = 31\<rparr>,
        quietUntil_state = None, now = 600000, sleepUntil = Some 900000,
        lastInputRef = 0, autoSleepStartedRef = True,
        localStorage = \<lparr>psim_actionMinutes = None, psim_quietUntil = None\<rparr>\<rparr> 601000)) = 46
   \<and> psim_actionMinutes (localStorage (doAction PLAY
      \<lparr>petState = SLEEPING,
        needs = \<lparr>hunger = 31, cleanliness = 31, playfulness = 31, affection = 31\<rparr>,
        quietUntil_state = None, now = 600000, sleepUntil = Some 900000,
        lastInputRef = 0, autoSleepStartedRef = True,
        localStorage = \<lparr>psim_actionMinutes = None, psim_quietUntil = None\<rparr>\<rparr> 601000)) = Some [10]"
  by code_simp

text \<open>
  Claim C2, amended. While the pet is SLEEPING the Play button is disabled, so pressing it
  changes nothing (needs, state, window and everything else stay as they are) and raises
  no error. \<open>doAction\<close> itself has no such guard: called with PLAY on a SLEEPING pet while
  quiet time is not active, it is applied like any admitted action, waking the pet, raising
  playfulness by 15 up to 100 and recording the minute.
\<close>

theorem play_while_sleeping:
  assumes "petState s = SLEEPING"
  shows "clickPlay s tr t = s
       \<and> (\<not> active (snd (isQuietActive (localStorage s) t)) \<longrightarrow>
            petState (doAction PLAY s t) = AWAKE
          \<and> playfulness (needs (doAction PLAY s t)) = clamp (playfulness (needs s) + 15) 0 100
          \<and> nowMinute t \<in> set (loadMinutes (localStorage (doAction PLAY s t))))"
  using assms
  by (simp add: clickPlay_def playDisabled_def doAction_def Let_def applyDelta_def delta_def
      orZero_def loadMinutes_registerAction)

theorem play_while_sleeping_witness:
  "clickPlay
      \<lparr>petState = SLEEPING,
        needs = \<lparr>hunger = 31, cleanliness = 31, playfulness = 31, affection = 31\<rparr>,
        quietUntil_state = None, now = 600000, sleepUntil = Some 900000,
        lastInputRef = 0, autoSleepStartedRef = True,
        localStorage = \<lparr>psim_actionMinutes = None, psim_quietUntil = None\<rparr>\<rparr> 600000 601000
    = \<lparr>petState = SLEEPING,
        needs = \<lparr>hunger = 31, cleanliness = 31, playfulness = 31, affection = 31\<rparr>,
        quietUntil_state = None, now = 600000, sleepUntil = Some 900000,
        lastInputRef = 0, autoSleepStartedRef = True,
        localStorage = \<lparr>psim_actionMinutes = None, psim_quietUntil = None\<rparr>\<rparr>
   \<and> petState (doAction PLAY
      \<lparr>petState = SLEEPING,
        needs = \<lparr>hunger = 31, cleanliness = 31, playfulness = 31, affection = 31\<rparr>,
        quietUntil_state = None, now = 600000, sleepUntil = Some 900000,
        lastInputRef = 0, autoSleepStartedRef = True,
        localStorage = \<lparr>psim_actionMinutes = None, psim_quietUntil = None\<rparr>\<rparr> 601000) = AWAKE"
proof -
  let ?s = "\<lparr>petState = SLEEPING,
        needs = \<lparr>hunger = 31, cleanliness = 31, playfulness = 31, affection = 31\<rparr>,
        quietUntil_state = None, now = 600000, sleepUntil = Some 900000,
        lastInputRef = 0, autoSleepStartedRef = True,
        localStorage = \<lparr>psim_actionMinutes = None, psim_quietUntil = None\<rparr>\<rparr>"
  have h: "petState ?s = SLEEPING" by simp
  have q: "\<not> active (snd (isQuietActive (localStorage ?s) 601000))"
    by (simp add: isQuietActive_def getQuietUntil_def)
  from play_while_sleeping[OF h, of 600000 601000] q show ?thesis by simp
qed

section \<open>Facts about the effects\<close>

lemma runEffects_no_change:
  assumes "now cur = now prev" and "petState cur = petState prev"
    and "sleepUntil cur = sleepUntil prev"
  shows "runEffects prev cur t r = cur"
  using assms by (simp add: runEffects_def)

lemma runEffects_fixed:
  "now (runEffects prev cur t r) = now cur"
  "lastInputRef (runEffects prev cur t r) = lastInputRef cur"
  by (simp_all add: runEffects_def idleEffect_def autoWakeEffect_def Let_def split: option.splits)

lemma runEffects_idle:
  assumes "\<not> ((now cur \<noteq> now prev \<or> petState cur \<noteq> petState prev) \<and>
              (petState cur = AWAKE \<and> 480000 \<le> now cur - lastInputRef cur
               \<or> 600000 \<le> now cur - lastInputRef cur \<and> petState cur \<noteq> SLEEPING))"
    and "\<not> ((now cur \<noteq> now prev \<or> sleepUntil cur \<noteq> sleepUntil prev) \<and>
              (case sleepUntil cur of None \<Rightarrow> False | Some u \<Rightarrow> u \<noteq> 0 \<and> u \<le> t))"
  shows "runEffects prev cur t r = cur"
proof -
  have i: "(if now cur \<noteq> now prev \<or> petState cur \<noteq> petState prev
            then idleEffect cur cur t r else cur) = cur"
  proof (cases "now cur \<noteq> now prev \<or> petState cur \<noteq> petState prev")
    case True
    with assms(1) have "\<not> (petState cur = AWAKE \<and> 480000 \<le> now cur - lastInputRef cur)"
      and "\<not> (600000 \<le> now cur - lastInputRef cur \<and> petState cur \<noteq> SLEEPING)"
      by blast+
    then have "idleEffect cur cur t r = cur"
      by (auto simp add: idleEffect_def IDLE_TO_DROWSY_MS_def DROWSY_TO_SLEEP_MS_def Let_def)
    then show ?thesis by simp
  next
    case False
    then show ?thesis by simp
  qed
  have w: "(if now cur \<noteq> now prev \<or> sleepUntil cur \<noteq> sleepUntil prev
            then autoWakeEffect cur cur t else cur) = cur"
    using assms(2) by (auto simp add: autoWakeEffect_def split: option.splits)
  show ?thesis unfolding runEffects_def Let_def i by (rule w)
qed

lemma runEffects_awake:
  assumes "petState cur = AWAKE" and "sleepUntil cur = None"
    and "now cur - lastInputRef cur < 480000"
  shows "runEffects prev cur t r = cur"
  using assms by (intro runEffects_idle) simp_all

lemma runEffects_drowsy:
  assumes "petState cur = DROWSY" and "now cur - lastInputRef cur < 600000"
    and "sleepUntil cur = None \<or> (sleepUntil cur = sleepUntil prev \<and> now cur = now prev)"
  shows "runEffects prev cur t r = cur"
  using assms by (intro runEffects_idle) auto

lemma runEffects_sleeping:
  assumes "petState cur = SLEEPING" and "sleepUntil cur = Some d" and "t < d"
  shows "runEffects prev cur t r = cur"
  using assms by (intro runEffects_idle) simp_all

lemma runEffects_to_drowsy:
  assumes "petState cur = AWAKE" and "sleepUntil cur = None" and "now cur \<noteq> now prev"
    and "480000 \<le> now cur - lastInputRef cur" and "now cur - lastInputRef cur < 600000"
  shows "runEffects prev cur t r = cur\<lparr>petState := DROWSY\<rparr>"
  using assms
  by (simp add: runEffects_def idleEffect_def autoWakeEffect_def IDLE_TO_DROWSY_MS_def
      DROWSY_TO_SLEEP_MS_def)

lemma runEffects_to_sleep:
  assumes "petState cur \<noteq> SLEEPING" and "sleepUntil cur = None" and "now cur \<noteq> now prev"
    and "600000 \<le> now cur - lastInputRef cur"
  shows "runEffects prev cur t r =
           cur\<lparr>petState := SLEEPING, autoSleepStartedRef := True,
                sleepUntil := Some (t + wakeSpan r)\<rparr>"
  using assms
  by (simp add: runEffects_def idleEffect_def autoWakeEffect_def IDLE_TO_DROWSY_MS_def
      DROWSY_TO_SLEEP_MS_def)

lemma petState_idleEffect:
  "petState (idleEffect cur cur t r) =
     (if 600000 \<le> now cur - lastInputRef cur \<and> petState cur \<noteq> SLEEPING then SLEEPING
      else if petState cur = AWAKE \<and> 480000 \<le> now cur - lastInputRef cur then DROWSY
      else petState cur)"
  by (simp add: idleEffect_def IDLE_TO_DROWSY_MS_def DROWSY_TO_SLEEP_MS_def Let_def)

lemma sleepUntil_idleEffect:
  "sleepUntil (idleEffect cur cur t r) =
     (if 600000 \<le> now cur - lastInputRef cur \<and> petState cur \<noteq> SLEEPING
      then Some (t + wakeSpan r) else sleepUntil cur)"
  by (simp add: idleEffect_def IDLE_TO_DROWSY_MS_def DROWSY_TO_SLEEP_MS_def Let_def)

lemma petState_autoWakeEffect:
  "petState (autoWakeEffect cur acc t) =
     (if (case sleepUntil cur of None \<Rightarrow> False | Some u \<Rightarrow> u \<noteq> 0 \<and> u \<le> t) then AWAKE
      else petState acc)"
  by (simp add: autoWakeEffect_def split: option.splits)

lemma sleepUntil_autoWakeEffect:
  "sleepUntil (autoWakeEffect cur acc t) =
     (if (case sleepUntil cur of None \<Rightarrow> False | Some u \<Rightarrow> u \<noteq> 0 \<and> u \<le> t) then None
      else sleepUntil acc)"
  by (simp add: autoWakeEffect_def split: option.splits)

lemma runEffects_wakes:
  assumes "now cur \<noteq> now prev \<or> sleepUntil cur \<noteq> sleepUntil prev"
    and "case sleepUntil cur of None \<Rightarrow> False | Some u \<Rightarrow> u \<noteq> 0 \<and> u \<le> t"
  shows "petState (runEffects prev cur t r) = AWAKE \<and> sleepUntil (runEffects prev cur t r) = None"
  using assms
  by (simp add: runEffects_def Let_def petState_autoWakeEffect sleepUntil_autoWakeEffect)

lemma runEffects_dozes:
  assumes "now cur \<noteq> now prev \<or> petState cur \<noteq> petState prev"
    and "petState cur = AWAKE \<and> 480000 \<le> now cur - lastInputRef cur
         \<or> 600000 \<le> now cur - lastInputRef cur \<and> petState cur \<noteq> SLEEPING"
    and "\<not> ((now cur \<noteq> now prev \<or> sleepUntil cur \<noteq> sleepUntil prev) \<and>
              (case sleepUntil cur of None \<Rightarrow> False | Some u \<Rightarrow> u \<noteq> 0 \<and> u \<le> t))"
  shows "(petState (runEffects prev cur t r) = DROWSY
          \<and> sleepUntil (runEffects prev cur t r) = sleepUntil cur
          \<and> now cur - lastInputRef cur < 600000)
       \<or> (petState (runEffects prev cur t r) = SLEEPING
          \<and> sleepUntil (runEffects prev cur t r) = Some (t + wakeSpan r))"
proof -
  have ps: "petState (runEffects prev cur t r) = petState (idleEffect cur cur t r)"
    using assms(1,3)
    by (auto simp add: runEffects_def Let_def petState_autoWakeEffect)
  have su: "sleepUntil (runEffects prev cur t r) = sleepUntil (idleEffect cur cur t r)"
    using assms(1,3)
    by (auto simp add: runEffects_def Let_def sleepUntil_autoWakeEffect)
  show ?thesis
  proof (cases "600000 \<le> now cur - lastInputRef cur \<and> petState cur \<noteq> SLEEPING")
    case True
    then show ?thesis unfolding ps su by (simp add: petState_idleEffect sleepUntil_idleEffect)
  next
    case False
    with assms(2) have "petState cur = AWAKE" "480000 \<le> now cur - lastInputRef cur"
      "now cur - lastInputRef cur < 600000" by auto
    then show ?thesis unfolding ps su by (simp add: petState_idleEffect sleepUntil_idleEffect)
  qed
qed

lemma runEffects_outcome:
  "runEffects prev cur t r = cur
   \<or> (petState (runEffects prev cur t r) = AWAKE \<and> sleepUntil (runEffects prev cur t r) = None)
   \<or> (petState (runEffects prev cur t r) = DROWSY
        \<and> sleepUntil (runEffects prev cur t r) = sleepUntil cur
        \<and> now cur - lastInputRef cur < 600000)
   \<or> (petState (runEffects prev cur t r) = SLEEPING
        \<and> sleepUntil (runEffects prev cur t r) = Some (t + wakeSpan r))"
  using runEffects_idle[of cur prev t r] runEffects_wakes[of cur prev t r]
    runEffects_dozes[of cur prev t r]
  by blast

lemma runEffects_from_awake:
  assumes "petState cur = AWAKE" and "sleepUntil cur = None"
  shows "runEffects prev cur t r = cur
   \<or> (petState (runEffects prev cur t r) = DROWSY
        \<and> sleepUntil (runEffects prev cur t r) = None
        \<and> now cur - lastInputRef cur < 600000)
   \<or> (petState (runEffects prev cur t r) = SLEEPING
        \<and> sleepUntil (runEffects prev cur t r) = Some (t + wakeSpan r))"
proof -
  have nw: "\<not> ((now cur \<noteq> now prev \<or> sleepUntil cur \<noteq> sleepUntil prev) \<and>
              (case sleepUntil cur of None \<Rightarrow> False | Some u \<Rightarrow> u \<noteq> 0 \<and> u \<le> t))"
    using assms(2) by simp
  show ?thesis
    using runEffects_idle[OF _ nw, of r] runEffects_dozes[OF _ _ nw, of r] assms(2)
    by metis
qed

lemma wakeSpan_positive: "300000 \<le> wakeSpan r"
  by (simp add: wakeSpan_def AUTO_WAKE_MIN_MS_def)

text \<open>
  Two pure commits in a row leave a state that a third commit does not change, whatever the
  state and the previous render were: an effect that fired leaves a state in which at most
  the idle effect fires once more.
\<close>

lemma commits_stable:
  "runEffects (runEffects prev cur t r) (runEffects cur (runEffects prev cur t r) t r) t r
     = runEffects cur (runEffects prev cur t r) t r"
proof -
  define s1 where "s1 = runEffects prev cur t r"
  define s2 where "s2 = runEffects cur s1 t r"
  have fx1: "now s1 = now cur" "lastInputRef s1 = lastInputRef cur"
    unfolding s1_def by (rule runEffects_fixed)+
  have fx2: "now s2 = now s1" "lastInputRef s2 = lastInputRef s1"
    unfolding s2_def by (rule runEffects_fixed)+
  have same: "runEffects s1 s2 t r = s2" if "s2 = s1"
    using that by (intro runEffects_no_change) simp_all
  have fut: "t < t + wakeSpan r" using wakeSpan_positive[of r] by simp
  from runEffects_outcome[of prev cur t r]
  consider (idle) "s1 = cur"
    | (woke) "petState s1 = AWAKE" "sleepUntil s1 = None"
    | (drowsy) "petState s1 = DROWSY" "sleepUntil s1 = sleepUntil cur"
        "now cur - lastInputRef cur < 600000"
    | (asleep) "petState s1 = SLEEPING" "sleepUntil s1 = Some (t + wakeSpan r)"
    unfolding s1_def by fastforce
  then have "runEffects s1 s2 t r = s2"
  proof cases
    case idle
    then have "s2 = s1" unfolding s2_def by (intro runEffects_no_change) simp_all
    then show ?thesis by (rule same)
  next
    case woke
    from runEffects_from_awake[OF woke, of cur t r]
    consider "s2 = s1"
      | "petState s2 = DROWSY" "sleepUntil s2 = None" "now s1 - lastInputRef s1 < 600000"
      | "petState s2 = SLEEPING" "sleepUntil s2 = Some (t + wakeSpan r)"
      unfolding s2_def by fastforce
    then show ?thesis
    proof cases
      case 1
      then show ?thesis by (rule same)
    next
      case 2
      then show ?thesis using fx2 by (intro runEffects_drowsy) simp_all
    next
      case 3
      then show ?thesis using fut by (intro runEffects_sleeping[where d = "t + wakeSpan r"])
    qed
  next
    case drowsy
    then have "s2 = s1" unfolding s2_def using fx1 by (intro runEffects_drowsy) simp_all
    then show ?thesis by (rule same)
  next
    case asleep
    then have "s2 = s1"
      unfolding s2_def using fut by (intro runEffects_sleeping[where d = "t + wakeSpan r"])
    then show ?thesis by (rule same)
  qed
  then show ?thesis by (simp add: s1_def s2_def)
qed

subsection \<open>Renders\<close>

lemma render_fields:
  "petState (render s t) = petState s" "sleepUntil (render s t) = sleepUntil s"
  "now (render s t) = now s" "lastInputRef (render s t) = lastInputRef s"
  by (simp_all add: render_def)

lemma isQuietActive_again:
  "fst (isQuietActive (fst (isQuietActive st t)) t) = fst (isQuietActive st t)"
  by (auto simp: isQuietActive_def getQuietUntil_def setQuietUntil_def split: option.splits)

lemma render_again: "render (render s t) t = render s t"
  by (simp add: render_def isQuietActive_again)

lemma localStorage_runEffects: "localStorage (runEffects prev cur t r) = localStorage cur"
  by (simp add: runEffects_def idleEffect_def autoWakeEffect_def Let_def split: option.splits)

lemma render_runEffects:
  "render (runEffects prev (render cur t) t r) t = runEffects prev (render cur t) t r"
proof -
  have "localStorage (runEffects prev (render cur t) t r)
          = fst (isQuietActive (localStorage cur) t)"
    by (simp add: localStorage_runEffects render_def)
  then show ?thesis
    by (simp add: render_def[of "runEffects prev (render cur t) t r"] isQuietActive_again)
qed

lemma render_quietHeartbeat: "render (quietHeartbeat s t) t = quietHeartbeat s t"
  by (simp add: render_def quietHeartbeat_def Let_def isQuietActive_again)

lemma settle_eq:
  "settle prev cur t r
     = runEffects (render cur t) (runEffects prev (render cur t) t r) t r"
  by (simp add: settle_def Let_def render_runEffects)

text \<open>
  After the two rounds of \<open>settle\<close> a third render and commit change nothing.
\<close>

lemma settle_stable:
  "runEffects (render (runEffects prev (render cur t) t r) t)
     (render (settle prev cur t r) t) t r = settle prev cur t r"
proof -
  have "render (settle prev cur t r) t = settle prev cur t r"
    unfolding settle_def Let_def by (rule render_runEffects)
  then show ?thesis
    by (simp add: render_runEffects) (simp add: settle_eq commits_stable)
qed

subsection \<open>The span\<close>

lemma bits_bounds: "0 < n \<Longrightarrow> 2 ^ (bits n - 1) \<le> n \<and> n < 2 ^ bits n"
proof (induction n rule: bits.induct)
  case (1 n)
  show ?case
  proof (cases "n div 2 = 0")
    case True
    with 1(2) have "n = 1" by (simp add: div_eq_0_iff)
    then show ?thesis by (simp add: bits.simps)
  next
    case False
    then have ih: "2 ^ (bits (n div 2) - 1) \<le> n div 2 \<and> n div 2 < 2 ^ bits (n div 2)"
      using 1 by simp
    have b: "bits n = Suc (bits (n div 2))" using 1(2) by (subst bits.simps) simp
    have pos: "0 < bits (n div 2)" using False by (subst bits.simps) simp
    then have e: "2 ^ (bits n - 1) = 2 * 2 ^ (bits (n div 2) - 1)"
      unfolding b by (cases "bits (n div 2)") simp_all
    show ?thesis unfolding e using ih unfolding b by (simp; linarith)
  qed
qed

text \<open>
  Rounding adds at most half a unit in the last place.
\<close>

lemma round53_le: "round53 M \<le> M + 2 ^ (bits M - 54)"
proof (cases "M < 2 ^ 53")
  case True
  then show ?thesis by (simp add: round53_def)
next
  case False
  define s where "s = bits M - 53"
  define q where "q = M div 2 ^ s"
  define rest where "rest = M mod 2 ^ s"
  have Mpos: "0 < M" using False by (cases "M = 0") simp_all
  from bits_bounds[OF Mpos] False have "(2::nat) ^ 53 < 2 ^ bits M" by linarith
  then have "53 < bits M" by (rule power_less_imp_less_exp[rotated]) simp
  then have s1: "1 \<le> s" by (simp add: s_def)
  then have hs: "(2::nat) ^ s = 2 * 2 ^ (s - 1)" by (cases s) simp_all
  have sm: "s - Suc 0 = bits M - 54" by (simp add: s_def)
  have M: "M = q * 2 ^ s + rest"
    unfolding q_def rest_def by (rule div_mult_mod_eq[symmetric])
  have r: "round53 M =
      (if 2 ^ (s - 1) < rest \<or> (rest = 2 ^ (s - 1) \<and> odd q) then q + 1 else q) * 2 ^ s"
    using False by (simp add: round53_def Let_def s_def q_def rest_def)
  show ?thesis
  proof (cases "2 ^ (s - 1) < rest \<or> (rest = 2 ^ (s - 1) \<and> odd q)")
    case True
    then have "2 ^ (s - 1) \<le> rest" by auto
    moreover have "round53 M = q * 2 ^ s + 2 ^ s" using True r by (simp add: algebra_simps)
    ultimately have "round53 M \<le> M + 2 ^ (s - 1)" using M hs by linarith
    then show ?thesis by (simp add: sm)
  next
    case False
    then have "round53 M = q * 2 ^ s" using r by simp
    then show ?thesis using M by simp
  qed
qed

text \<open>
  The rounded product of a draw with a whole number stays below that number: the gap
  between the exact product and the number is at least the number times \<open>2^-53\<close>, more than
  half a unit in the last place of the product.
\<close>

lemma round53_product:
  assumes "m < 2 ^ 53" and "53 \<le> j" and "0 < c"
  shows "round53 (m * c) < c * 2 ^ j"
proof -
  define P :: nat where "P = 2 ^ 53"
  define J :: nat where "J = 2 ^ j"
  have PJ: "P \<le> J" unfolding P_def J_def using assms(2) by (rule power_increasing) simp
  have mP: "m < P" using assms(1) by (simp add: P_def)
  show ?thesis
  proof (cases "m * c < P")
    case True
    from mP PJ have "m < J" by linarith
    then have "m * c < J * c" using assms(3) by simp
    moreover have "round53 (m * c) = m * c" using True by (simp add: round53_def P_def)
    ultimately show ?thesis by (simp add: J_def mult.commute)
  next
    case False
    define M where "M = m * c"
    define B where "B = (2::nat) ^ (bits M - 54)"
    have PM: "P \<le> M" using False by (simp add: M_def)
    moreover have "0 < P" by (simp add: P_def)
    ultimately have Mpos: "0 < M" by linarith
    from bits_bounds[OF Mpos] have lo: "2 ^ (bits M - 1) \<le> M" by simp
    from bits_bounds[OF Mpos] PM have "(2::nat) ^ 53 < 2 ^ bits M"
      unfolding P_def by linarith
    then have big: "53 < bits M" by (rule power_less_imp_less_exp[rotated]) simp
    have "bits M - 1 = (bits M - 54) + 53" using big by simp
    then have "(2::nat) ^ (bits M - 1) = B * P" unfolding B_def P_def by (simp only: power_add)
    with lo have "B * P \<le> M" by simp
    also have "M < c * P" unfolding M_def using mP assms(3) by (simp add: mult.commute)
    finally have "B * P < c * P" .
    then have small: "B < c" by simp
    have "m + 1 \<le> J" using mP PJ by linarith
    then have "(m + 1) * c \<le> J * c" by (rule mult_le_mono1)
    then have room: "M + c \<le> c * J" by (simp add: M_def algebra_simps)
    from round53_le[of M] have "round53 M \<le> M + B" by (simp add: B_def)
    with small room have "round53 M < c * J" by linarith
    then show ?thesis by (simp add: M_def J_def)
  qed
qed

lemma timesFloor_less:
  assumes "unit_double r" and "0 < c"
  shows "timesFloor r c < c"
proof -
  have "round53 (mant r * c) < c * 2 ^ expo r"
    using assms by (intro round53_product) (simp_all add: unit_double_def)
  then show ?thesis
    unfolding timesFloor_def by (rule less_mult_imp_div_less)
qed

lemma wakeSpan_less:
  assumes "unit_double r"
  shows "wakeSpan r < 720000"
proof -
  have "timesFloor r 420000 < 420000" using assms by (rule timesFloor_less) simp
  then show ?thesis
    by (simp add: wakeSpan_def AUTO_WAKE_MIN_MS_def AUTO_WAKE_MAX_MS_def)
qed

subsection \<open>One tick of the idle clock\<close>

lemma tick_fixed:
  "now (tick s t r) = t" "lastInputRef (tick s t r) = lastInputRef s"
  by (simp_all add: tick_def settle_def Let_def runEffects_fixed render_fields)

lemma tick_awake:
  assumes "petState s = AWAKE" and "sleepUntil s = None" and "now s \<noteq> t"
    and "t - lastInputRef s < 480000"
  shows "tick s t r = render (s\<lparr>now := t\<rparr>) t"
proof -
  have "runEffects p (render (s\<lparr>now := t\<rparr>) t) t r = render (s\<lparr>now := t\<rparr>) t" for p
    using assms by (intro runEffects_awake) (simp_all add: render_fields)
  then show ?thesis using assms(3) by (simp add: tick_def settle_eq)
qed

lemma tick_to_drowsy:
  assumes "petState s = AWAKE" and "sleepUntil s = None" and "now s \<noteq> t"
    and "480000 \<le> t - lastInputRef s" and "t - lastInputRef s < 600000"
  shows "tick s t r = (render (s\<lparr>now := t\<rparr>) t)\<lparr>petState := DROWSY\<rparr>"
proof -
  let ?c = "render (s\<lparr>now := t\<rparr>) t"
  have 1: "runEffects s ?c t r = ?c\<lparr>petState := DROWSY\<rparr>"
    using assms by (subst runEffects_to_drowsy) (simp_all add: render_fields)
  have 2: "runEffects p (?c\<lparr>petState := DROWSY\<rparr>) t r = ?c\<lparr>petState := DROWSY\<rparr>" for p
    using assms by (intro runEffects_drowsy) (simp_all add: render_fields)
  show ?thesis using assms(3) by (simp add: tick_def settle_eq 1 2)
qed

lemma tick_drowsy:
  assumes "petState s = DROWSY" and "sleepUntil s = None" and "now s \<noteq> t"
    and "t - lastInputRef s < 600000"
  shows "tick s t r = render (s\<lparr>now := t\<rparr>) t"
proof -
  have "runEffects p (render (s\<lparr>now := t\<rparr>) t) t r = render (s\<lparr>now := t\<rparr>) t" for p
    using assms by (intro runEffects_drowsy) (simp_all add: render_fields)
  then show ?thesis using assms(3) by (simp add: tick_def settle_eq)
qed

lemma tick_to_sleep:
  assumes "petState s \<noteq> SLEEPING" and "sleepUntil s = None" and "now s \<noteq> t"
    and "600000 \<le> t - lastInputRef s"
  shows "tick s t r = (render (s\<lparr>now := t\<rparr>) t)
           \<lparr>petState := SLEEPING, autoSleepStartedRef := True,
            sleepUntil := Some (t + wakeSpan r)\<rparr>"
proof -
  let ?c = "render (s\<lparr>now := t\<rparr>) t"
  let ?z = "?c\<lparr>petState := SLEEPING, autoSleepStartedRef := True,
               sleepUntil := Some (t + wakeSpan r)\<rparr>"
  have 1: "runEffects s ?c t r = ?z"
    using assms by (subst runEffects_to_sleep) (simp_all add: render_fields)
  have 2: "runEffects p ?z t r = ?z" for p
    using wakeSpan_positive[of r]
    by (intro runEffects_sleeping[where d = "t + wakeSpan r"]) simp_all
  show ?thesis using assms(3) by (simp add: tick_def settle_eq 1 2)
qed

lemma tick_sleeping:
  assumes "petState s = SLEEPING" and "sleepUntil s = Some d" and "now s \<noteq> t" and "t < d"
  shows "tick s t r = render (s\<lparr>now := t\<rparr>) t"
proof -
  have "runEffects p (render (s\<lparr>now := t\<rparr>) t) t r = render (s\<lparr>now := t\<rparr>) t" for p
    using assms by (intro runEffects_sleeping[where d = d]) (simp_all add: render_fields)
  then show ?thesis using assms(3) by (simp add: tick_def settle_eq)
qed

lemma initApp_fields:
  "petState (initApp st t0) = AWAKE" "sleepUntil (initApp st t0) = None"
  "now (initApp st t0) = t0" "lastInputRef (initApp st t0) = t0"
  by (simp_all add: initApp_def Let_def)

text \<open>
  The decay tick and the quiet-time heartbeat touch neither the pet's state nor the clocks
  the idle effect reads.
\<close>

lemma background_lifecycle:
  assumes "background e"
  shows "petState (step s e) = petState s \<and> sleepUntil (step s e) = sleepUntil s
       \<and> now (step s e) = now s \<and> lastInputRef (step s e) = lastInputRef s"
  using assms
  by (cases e) (simp_all add: decayBeat_def decayTick_def quietHeartbeat_def render_def Let_def)

lemma run_background:
  assumes "\<forall>e\<in>set evs. background e"
  shows "petState (run s evs) = petState s \<and> sleepUntil (run s evs) = sleepUntil s
       \<and> now (run s evs) = now s \<and> lastInputRef (run s evs) = lastInputRef s"
  using assms unfolding run_def
proof (induction evs arbitrary: s)
  case Nil
  then show ?case by simp
next
  case (Cons e evs)
  from Cons.prems have "background e" by simp
  from background_lifecycle[OF this, of s] Cons.IH[of "step s e"] Cons.prems
  show ?case by simp
qed

subsection \<open>The pet left alone\<close>

lemma clock_mono:
  assumes "\<forall>k. clock k < clock (Suc k)"
  shows "i \<le> j \<Longrightarrow> clock i \<le> (clock j :: int)"
proof (induction j)
  case 0
  then show ?case by simp
next
  case (Suc j)
  show ?case
  proof (cases "i = Suc j")
    case True
    then show ?thesis by simp
  next
    case False
    with Suc.prems have "i \<le> j" by simp
    with Suc.IH have "clock i \<le> clock j" by simp
    also have "clock j < clock (Suc j)" using assms by simp
    finally show ?thesis by simp
  qed
qed

text \<open>
  Up to the first firing ten minutes or more after the mount: AWAKE after a firing less
  than eight minutes after the mount, DROWSY after a later one.
\<close>

lemma idleRun_before_sleep:
  assumes "\<forall>k. clock k < clock (Suc k)" and "\<forall>k. \<forall>e\<in>set (bg k). background e"
  shows "clock k - clock 0 < 600000 \<Longrightarrow>
           now (idleRun st clock rnd bg k) = clock k
         \<and> lastInputRef (idleRun st clock rnd bg k) = clock 0
         \<and> sleepUntil (idleRun st clock rnd bg k) = None
         \<and> petState (idleRun st clock rnd bg k)
             = (if clock k - clock 0 < 480000 then AWAKE else DROWSY)"
proof (induction k)
  case 0
  from run_background[of "bg 0" "initApp st (clock 0)"] assms(2)
  show ?case by (simp add: initApp_fields)
next
  case (Suc k)
  let ?s = "idleRun st clock rnd bg k"
  let ?t = "clock (Suc k)"
  let ?u = "tick ?s ?t (rnd (Suc k))"
  have lt: "clock k < ?t" using assms(1) by simp
  with Suc.prems have "clock k - clock 0 < 600000" by simp
  from Suc.IH[OF this] have nw: "now ?s = clock k" and li: "lastInputRef ?s = clock 0"
    and su: "sleepUntil ?s = None"
    and ps: "petState ?s = (if clock k - clock 0 < 480000 then AWAKE else DROWSY)"
    by simp_all
  have ne: "now ?s \<noteq> ?t" using nw lt by simp
  have u: "now ?u = ?t \<and> lastInputRef ?u = clock 0 \<and> sleepUntil ?u = None
         \<and> petState ?u = (if ?t - clock 0 < 480000 then AWAKE else DROWSY)"
  proof (cases "?t - clock 0 < 480000")
    case True
    with lt have "petState ?s = AWAKE" using ps by simp
    then have "?u = render (?s\<lparr>now := ?t\<rparr>) ?t"
      using su ne True li by (intro tick_awake) simp_all
    then show ?thesis using True su li \<open>petState ?s = AWAKE\<close> by (simp add: render_fields)
  next
    case False
    show ?thesis
    proof (cases "petState ?s = AWAKE")
      case True
      then have "?u = (render (?s\<lparr>now := ?t\<rparr>) ?t)\<lparr>petState := DROWSY\<rparr>"
        using su ne False li Suc.prems by (intro tick_to_drowsy) simp_all
      then show ?thesis using False su li by (simp add: render_fields)
    next
      case notawake: False
      then have d: "petState ?s = DROWSY" using ps by (simp split: if_splits)
      then have "?u = render (?s\<lparr>now := ?t\<rparr>) ?t"
        using su ne li Suc.prems by (intro tick_drowsy) simp_all
      then show ?thesis using False su li d by (simp add: render_fields)
    qed
  qed
  from run_background[of "bg (Suc k)" ?u] assms(2) u show ?case by simp
qed

text \<open>
  From the first firing ten minutes or more after the mount, the \<open>K\<close>-th, until the
  deadline drawn at it: SLEEPING, with that deadline stored.
\<close>

lemma idleRun_asleep:
  assumes "\<forall>k. clock k < clock (Suc k)" and "\<forall>k. \<forall>e\<in>set (bg k). background e"
    and "600000 \<le> clock (Suc K') - clock 0" and "clock K' - clock 0 < 600000"
  shows "Suc K' \<le> k \<Longrightarrow> clock k < clock (Suc K') + wakeSpan (rnd (Suc K')) \<Longrightarrow>
           now (idleRun st clock rnd bg k) = clock k
         \<and> petState (idleRun st clock rnd bg k) = SLEEPING
         \<and> sleepUntil (idleRun st clock rnd bg k)
             = Some (clock (Suc K') + wakeSpan (rnd (Suc K')))"
proof (induction k)
  case 0
  then show ?case by simp
next
  case (Suc k)
  let ?s = "idleRun st clock rnd bg k"
  let ?t = "clock (Suc k)"
  let ?u = "tick ?s ?t (rnd (Suc k))"
  let ?d = "clock (Suc K') + wakeSpan (rnd (Suc K'))"
  have lt: "clock k < ?t" using assms(1) by simp
  have u: "now ?u = ?t \<and> petState ?u = SLEEPING \<and> sleepUntil ?u = Some ?d"
  proof (cases "k = K'")
    case True
    from idleRun_before_sleep[OF assms(1,2), of K' st rnd] assms(4)
    have nw: "now (idleRun st clock rnd bg K') = clock K'"
      and li: "lastInputRef (idleRun st clock rnd bg K') = clock 0"
      and su: "sleepUntil (idleRun st clock rnd bg K') = None"
      and ps: "petState (idleRun st clock rnd bg K')
                = (if clock K' - clock 0 < 480000 then AWAKE else DROWSY)"
      by simp_all
    have "petState ?s \<noteq> SLEEPING" using ps True by simp
    moreover have "now ?s \<noteq> ?t" using nw lt True by simp
    ultimately have "?u = (render (?s\<lparr>now := ?t\<rparr>) ?t)
           \<lparr>petState := SLEEPING, autoSleepStartedRef := True,
            sleepUntil := Some (?t + wakeSpan (rnd (Suc k)))\<rparr>"
      using su li True assms(3) by (intro tick_to_sleep) simp_all
    then show ?thesis using True by (simp add: render_fields)
  next
    case False
    with Suc.prems(1) have K: "Suc K' \<le> k" by simp
    have "clock k < ?d" using lt Suc.prems(2) by simp
    from Suc.IH[OF K this] have nw: "now ?s = clock k" and ps: "petState ?s = SLEEPING"
      and su: "sleepUntil ?s = Some ?d"
      by simp_all
    have "?u = render (?s\<lparr>now := ?t\<rparr>) ?t"
      using ps su nw lt Suc.prems(2) by (intro tick_sleeping[where d = ?d]) simp_all
    then show ?thesis using ps su by (simp add: render_fields)
  qed
  from run_background[of "bg (Suc k)" ?u] assms(2) u show ?case by simp
qed

subsection \<open>Falling asleep\<close>

text \<open>
  Claim C8, as stated, fails: the idle effect runs when the one-second interval fires, not
  when a threshold is crossed. Mounted at clock reading 0 with the interval firing one
  millisecond after every full second, the pet left alone is still AWAKE at 8 minutes: the
  479th firing reads 479001, the next one 480001, and between the two nothing changes the
  pet's state.
\<close>

theorem idle_timeline_counterexample:
  "lateTicks 479 \<le> 8 * 60 * 1000 \<and> 8 * 60 * 1000 < lateTicks 480
   \<and> petState (idleRun \<lparr>psim_actionMinutes = None, psim_quietUntil = None\<rparr> lateTicks drawZero
        (usualBeats lateTicks) 479) = AWAKE"
  by code_simp

text \<open>
  Claim C8, amended. Mount the component and leave it alone: the one-second interval fires
  at increasing clock readings, decay ticks and quiet-time heartbeats come as they may, and
  nothing else happens. The state after a firing, which stays until the next one, is AWAKE
  if the firing is less than 8 minutes after the mount, DROWSY if it is 8 minutes or more
  and less than 10 minutes after the mount, and, from the first firing 10 minutes or more
  after the mount, SLEEPING until the auto-wake deadline drawn at that firing, which is at
  least 5 minutes after it. So the pet is AWAKE all through the first 8 minutes, and turns
  DROWSY and SLEEPING at the first firing at or after 8 and 10 minutes.
\<close>

theorem idle_timeline:
  assumes "\<forall>k. clock k < clock (Suc k)" and "\<forall>k. \<forall>e\<in>set (bg k). background e"
  shows "(clock k - clock 0 < 8 * 60 * 1000 \<longrightarrow>
            petState (idleRun st clock rnd bg k) = AWAKE)
       \<and> (8 * 60 * 1000 \<le> clock k - clock 0 \<and> clock k - clock 0 < 10 * 60 * 1000 \<longrightarrow>
            petState (idleRun st clock rnd bg k) = DROWSY)
       \<and> (0 < K \<and> K \<le> k \<and> 10 * 60 * 1000 \<le> clock K - clock 0
            \<and> clock (K - 1) - clock 0 < 10 * 60 * 1000
            \<and> clock k < clock K + wakeSpan (rnd K) \<longrightarrow>
            petState (idleRun st clock rnd bg k) = SLEEPING
          \<and> sleepUntil (idleRun st clock rnd bg k) = Some (clock K + wakeSpan (rnd K)))
       \<and> 5 * 60 * 1000 \<le> wakeSpan (rnd K)"
proof (intro conjI impI)
  show "petState (idleRun st clock rnd bg k) = AWAKE" if "clock k - clock 0 < 8 * 60 * 1000"
    using idleRun_before_sleep[OF assms, of k st rnd] that by simp
  show "petState (idleRun st clock rnd bg k) = DROWSY"
    if "8 * 60 * 1000 \<le> clock k - clock 0 \<and> clock k - clock 0 < 10 * 60 * 1000"
    using idleRun_before_sleep[OF assms, of k st rnd] that by simp
  show "5 * 60 * 1000 \<le> wakeSpan (rnd K)"
    using wakeSpan_positive[of "rnd K"] by simp
  assume a: "0 < K \<and> K \<le> k \<and> 10 * 60 * 1000 \<le> clock K - clock 0
            \<and> clock (K - 1) - clock 0 < 10 * 60 * 1000
            \<and> clock k < clock K + wakeSpan (rnd K)"
  then obtain K' where K: "K = Suc K'" by (cases K) simp_all
  from a have "600000 \<le> clock (Suc K') - clock 0" "clock K' - clock 0 < 600000"
    "Suc K' \<le> k" "clock k < clock (Suc K') + wakeSpan (rnd (Suc K'))"
    unfolding K by simp_all
  from idleRun_asleep[where clock = clock and bg = bg and K' = K' and k = k and rnd = rnd
      and st = st, OF assms this]
  show "petState (idleRun st clock rnd bg k) = SLEEPING"
    and "sleepUntil (idleRun st clock rnd bg k) = Some (clock K + wakeSpan (rnd K))"
    unfolding K by simp_all
qed

theorem idle_timeline_witness:
  "petState (idleRun \<lparr>psim_actionMinutes = None, psim_quietUntil = None\<rparr> everySecond drawZero
      (usualBeats everySecond) 479) = AWAKE
   \<and> petState (idleRun \<lparr>psim_actionMinutes = None, psim_quietUntil = None\<rparr> everySecond drawZero
      (usualBeats everySecond) 480) = DROWSY
   \<and> petState (idleRun \<lparr>psim_actionMinutes = None, psim_quietUntil = None\<rparr> everySecond drawZero
      (usualBeats everySecond) 599) = DROWSY
   \<and> petState (idleRun \<lparr>psim_actionMinutes = None, psim_quietUntil = None\<rparr> everySecond drawZero
      (usualBeats everySecond) 600) = SLEEPING
   \<and> sleepUntil (idleRun \<lparr>psim_actionMinutes = None, psim_quietUntil = None\<rparr> everySecond drawZero
      (usualBeats everySecond) 899) = Some 900000
   \<and> petState (idleRun \<lparr>psim_actionMinutes = None, psim_quietUntil = None\<rparr> lateTicks drawZero
      (usualBeats lateTicks) 480) = DROWSY
   \<and> petState (idleRun \<lparr>psim_actionMinutes = None, psim_quietUntil = None\<rparr> lateTicks drawZero
      (usualBeats lateTicks) 600) = SLEEPING"
proof -
  let ?st = "\<lparr>psim_actionMinutes = None, psim_quietUntil = None\<rparr>"
  have m1: "\<forall>k. everySecond k < everySecond (Suc k)" by (simp add: everySecond_def)
  have m2: "\<forall>k. lateTicks k < lateTicks (Suc k)" by (simp add: lateTicks_def)
  have b: "\<forall>k. \<forall>e\<in>set (usualBeats clock k). background e" for clock
    by (simp add: usualBeats_def)
  have e: "everySecond 0 = 0" "everySecond 479 = 479000" "everySecond 480 = 480000"
    "everySecond 599 = 599000" "everySecond 600 = 600000" "everySecond 899 = 899000"
    by (simp_all add: everySecond_def)
  have l: "lateTicks 0 = 0" "lateTicks 480 = 480001" "lateTicks 599 = 599001"
    "lateTicks 600 = 600001"
    by (simp_all add: lateTicks_def)
  have n: "(600::nat) - 1 = 599" by simp
  note A = idle_timeline[OF m1 b[of everySecond], where st = ?st and rnd = drawZero]
  note B = idle_timeline[OF m2 b[of lateTicks], where st = ?st and rnd = drawZero]
  have 1: "petState (idleRun ?st everySecond drawZero (usualBeats everySecond) 479) = AWAKE"
    using A[where k = 479 and K = 0] unfolding e by simp
  have 2: "petState (idleRun ?st everySecond drawZero (usualBeats everySecond) 480) = DROWSY"
    using A[where k = 480 and K = 0] unfolding e by simp
  have 3: "petState (idleRun ?st everySecond drawZero (usualBeats everySecond) 599) = DROWSY"
    using A[where k = 599 and K = 0] unfolding e by simp
  have 4: "petState (idleRun ?st everySecond drawZero (usualBeats everySecond) 600) = SLEEPING"
    using A[where k = 600 and K = 600] unfolding n e wakeSpan_drawZero by simp
  have 5: "sleepUntil (idleRun ?st everySecond drawZero (usualBeats everySecond) 899)
            = Some 900000"
    using A[where k = 899 and K = 600] unfolding n e wakeSpan_drawZero by simp
  have 6: "petState (idleRun ?st lateTicks drawZero (usualBeats lateTicks) 480) = DROWSY"
    using B[where k = 480 and K = 0] unfolding l by simp
  have 7: "petState (idleRun ?st lateTicks drawZero (usualBeats lateTicks) 600) = SLEEPING"
    using B[where k = 600 and K = 600] unfolding n l wakeSpan_drawZero by simp
  from 1 2 3 4 5 6 7 show ?thesis by simp
qed

text \<open>
  Claim C9. When the idle effect puts the pet to sleep at clock reading \<open>t\<close>, with
  \<open>Math.random()\<close> returning any double \<open>r\<close> from 0 up to but not including 1, the
  auto-wake deadline it stores is \<open>t\<close> plus the drawn span and lies from \<open>t + 5 min\<close> up to
  but not including \<open>t + 12 min\<close>.
\<close>

theorem autoWake_bound:
  assumes "unit_double r"
    and "IDLE_TO_DROWSY_MS + DROWSY_TO_SLEEP_MS \<le> now s - lastInputRef s"
    and "petState s \<noteq> SLEEPING"
  shows "petState (idleEffect s s t r) = SLEEPING
       \<and> sleepUntil (idleEffect s s t r) = Some (t + wakeSpan r)
       \<and> t + 5 * 60 * 1000 \<le> t + wakeSpan r
       \<and> t + wakeSpan r < t + 12 * 60 * 1000"
  using assms(2,3) wakeSpan_positive[of r] wakeSpan_less[OF assms(1)]
  by (simp add: idleEffect_def Let_def)

theorem autoWake_bound_witness:
  "unit_double (Draw 4289292622245194 53)
   \<and> sleepUntil (idleEffect
        ((initApp \<lparr>psim_actionMinutes = None, psim_quietUntil = None\<rparr> 0)\<lparr>now := 600000\<rparr>)
        ((initApp \<lparr>psim_actionMinutes = None, psim_quietUntil = None\<rparr> 0)\<lparr>now := 600000\<rparr>)
        600000 (Draw 4289292622245194 53)) = Some 1100007
   \<and> sleepUntil (idleEffect
        ((initApp \<lparr>psim_actionMinutes = None, psim_quietUntil = None\<rparr> 0)\<lparr>now := 600000\<rparr>)
        ((initApp \<lparr>psim_actionMinutes = None, psim_quietUntil = None\<rparr> 0)\<lparr>now := 600000\<rparr>)
        600000 (Draw 9007199254740991 53)) = Some 1319999
   \<and> (600000::int) + 5 * 60 * 1000 \<le> 1100007 \<and> (1319999::int) < 600000 + 12 * 60 * 1000"
proof -
  let ?s = "(initApp \<lparr>psim_actionMinutes = None, psim_quietUntil = None\<rparr> 0)\<lparr>now := 600000\<rparr>"
  have h1: "unit_double (Draw 4289292622245194 53)" "unit_double (Draw 9007199254740991 53)"
    by (simp_all add: unit_double_def)
  have h2: "IDLE_TO_DROWSY_MS + DROWSY_TO_SLEEP_MS \<le> now ?s - lastInputRef ?s"
    by (simp add: initApp_def Let_def IDLE_TO_DROWSY_MS_def DROWSY_TO_SLEEP_MS_def)
  have h3: "petState ?s \<noteq> SLEEPING" by (simp add: initApp_def Let_def)
  have w: "wakeSpan (Draw 4289292622245194 53) = 500007"
    "wakeSpan (Draw 9007199254740991 53) = 719999"
    by (simp_all add: wakeSpan_def timesFloor_def round53_def bits.simps Let_def
        AUTO_WAKE_MIN_MS_def AUTO_WAKE_MAX_MS_def)
  from autoWake_bound[OF h1(1) h2 h3, of 600000] autoWake_bound[OF h1(2) h2 h3, of 600000] h1
  show ?thesis
    unfolding w by simp
qed

end
